theory Spec2Isabelle
  imports Complex_Main
begin

section \<open>The document, as the translator reads it\<close>

text \<open>
  The translator of \<^verbatim>\<open>NodesTranslator.tsx\<close> works on DOM nodes. A node is an object
  with an identity (it is the key of a \<^verbatim>\<open>WeakMap\<close>), so a node is a number here; what the
  browser answers about a node is a field of the record \<open>DOM\<close>. The structure of the
  document does not change while one operation of the translator runs; the text of a
  node does (the translator writes it), so \<open>nodeValue\<close> is part of the state below and
  not of \<open>DOM\<close>.

  Counters (\<^verbatim>\<open>idCounter\<close>, \<^verbatim>\<open>updateId\<close>, \<^verbatim>\<open>translateContext\<close>) are JavaScript numbers; they
  hold exact integers below \<open>2 ^ 53\<close> and are natural numbers here. Strings are lists of
  \<open>char\<close>, read as code units below 256.
\<close>

type_synonym node = nat

datatype nodeKind = Element | Attr | Text | Other

text \<open>
  \<^verbatim>\<open>document.createTreeWalker(n, NodeFilter.SHOW_ALL, null)\<close>, stepped with
  \<^verbatim>\<open>nextNode()\<close> until it gives \<^verbatim>\<open>null\<close>: the nodes in document order, \<open>n\<close> first. Each
  node comes with what \<^verbatim>\<open>shadowRoot\<close> is for it: \<open>None\<close> for \<^verbatim>\<open>null\<close> (and for a node that
  is no element), otherwise the walkers of the elements in \<^verbatim>\<open>shadowRoot.children\<close>.
  A document is a finite tree, which the datatype says.
\<close>

datatype walker = Walker "(node \<times> walker list option) list"

record DOMRect =
  top' :: real
  left :: real
  bottom :: real
  right :: real
  height :: real
  width :: real

record DOM =
  kind :: "node \<Rightarrow> nodeKind"
  localName :: "node \<Rightarrow> string"
  nodeName :: "node \<Rightarrow> string"
  attrName :: "node \<Rightarrow> string"
  parentChain :: "node \<Rightarrow> node list"
  ownerElement :: "node \<Rightarrow> node option"
  childNodes :: "node \<Rightarrow> node list"
  attributes :: "node \<Rightarrow> node list"
  getRootNode :: "node \<Rightarrow> node"
  bodyContains :: "node \<Rightarrow> bool"
  createTreeWalker :: "node \<Rightarrow> walker"
  documentElement :: node
  getBoundingClientRect :: "node \<Rightarrow> DOMRect"
  innerHeight :: real
  innerWidth :: real
  clientHeight :: real
  clientWidth :: real

text \<open>
  \<open>parentChain d n\<close> is what repeated \<^verbatim>\<open>.parentNode\<close> gives from \<open>n\<close>: the parent, its
  parent, and so on up to the root (a document has no cycles, so this is a list).
\<close>

definition parentNode :: "DOM \<Rightarrow> node \<Rightarrow> node option" where
  "parentNode d n = (case parentChain d n of [] \<Rightarrow> None | p # _ \<Rightarrow> Some p)"

definition parentElement :: "DOM \<Rightarrow> node \<Rightarrow> node option" where
  "parentElement d n =
     (case parentNode d n of
        None \<Rightarrow> None
      | Some p \<Rightarrow> if kind d p = Element then Some p else None)"

definition getNamedItem :: "DOM \<Rightarrow> node \<Rightarrow> string \<Rightarrow> node option" where
  "getNamedItem d e a = find (\<lambda>x. attrName d x = a) (attributes d e)"

subsection \<open>Strings\<close>

text \<open>\<^verbatim>\<open>String.prototype.trim\<close> strips white space and line terminators at both ends.\<close>

definition isWhiteSpace :: "char \<Rightarrow> bool" where
  "isWhiteSpace c =
     (c \<in> {CHR 0x09, CHR 0x0A, CHR 0x0B, CHR 0x0C, CHR 0x0D, CHR 0x20, CHR 0xA0})"

definition trim :: "string \<Rightarrow> string" where
  "trim s = rev (dropWhile isWhiteSpace (rev (dropWhile isWhiteSpace s)))"

subsection \<open>searchParent, isInViewport\<close>

fun searchParent_loop :: "(node \<Rightarrow> bool) \<Rightarrow> node list \<Rightarrow> node option" where
  "searchParent_loop callback [] = None"
| "searchParent_loop callback (lookingNode # rest) =
     (if callback lookingNode then Some lookingNode else searchParent_loop callback rest)"

definition searchParent :: "DOM \<Rightarrow> node \<Rightarrow> (node \<Rightarrow> bool) \<Rightarrow> bool \<Rightarrow> node option" where
  "searchParent d n callback includeSelf =
     (if includeSelf \<and> callback n then Some n
      else searchParent_loop callback (parentChain d n))"

definition isInViewport :: "DOM \<Rightarrow> node \<Rightarrow> real \<Rightarrow> bool" where
  "isInViewport d element threshold =
     (let r = getBoundingClientRect d element;
          overflows_top = top' r;
          overflows_left = left r;
          overflows_bottom =
            (if innerHeight d \<noteq> 0 then innerHeight d else clientHeight d) - bottom r;
          overflows_right =
            (if innerWidth d \<noteq> 0 then innerWidth d else clientWidth d) - right r
      in if overflows_top + height r * threshold < 0 then False
         else if overflows_bottom + height r * threshold < 0 then False
         else if overflows_left + width r * threshold < 0 then False
         else if overflows_right + width r * threshold < 0 then False
         else True)"

section \<open>NodesTranslator\<close>

subsection \<open>Configuration\<close>

record InnerConfig =
  ignoredTags :: "string set"
  translatableAttributes :: "string set"
  lazyTranslate :: bool

record Config =
  ignoredTags' :: "string list option"
  translatableAttributes' :: "string list option"
  lazyTranslate' :: "bool option"

text \<open>The constructor: \<^verbatim>\<open>filter(String)\<close> drops the empty strings; lazy mode is the default.\<close>

definition innerConfig :: "Config option \<Rightarrow> InnerConfig" where
  "innerConfig config =
     \<lparr> ignoredTags =
         (case Option.bind config ignoredTags' of
            Some tags \<Rightarrow> set (filter (\<lambda>s. s \<noteq> []) tags) | None \<Rightarrow> {}),
       translatableAttributes =
         (case Option.bind config translatableAttributes' of
            Some attrs \<Rightarrow> set (filter (\<lambda>s. s \<noteq> []) attrs) | None \<Rightarrow> {}),
       lazyTranslate =
         (case Option.bind config lazyTranslate' of Some b \<Rightarrow> b | None \<Rightarrow> True) \<rparr>"

subsection \<open>State\<close>

record NodeData =
  id' :: nat
  updateId :: nat
  translateContext :: nat
  originalText :: string
  priority :: nat

text \<open>
  A call of \<^verbatim>\<open>translateCallback\<close> made by \<^verbatim>\<open>translateNode\<close>: the text and priority
  passed, and the node and the two constants \<^verbatim>\<open>nodeId\<close>, \<^verbatim>\<open>nodeContext\<close> that the
  continuation given to \<^verbatim>\<open>then\<close> has captured.
\<close>

record call =
  callNode :: node
  callText :: string
  callPriority :: nat
  nodeId :: nat
  nodeContext :: nat

datatype error = Error string

text \<open>
  The fields of the class, the text of the document's nodes, and the calls of
  \<^verbatim>\<open>translateCallback\<close> made so far, in order. An \<^verbatim>\<open>XMutationObserver\<close> is a position in
  \<open>observers\<close>, which says whether it is connected; \<open>itersectObserver\<close> is the set of
  targets of the \<^verbatim>\<open>IntersectionObserver\<close>.
\<close>

record state =
  observedNodesStorage :: "node \<rightharpoonup> nat"
  observers :: "bool list"
  itersectStorage :: "node set"
  itersectObserver :: "node set"
  idCounter :: nat
  nodeStorage :: "node \<rightharpoonup> NodeData"
  nodeValue :: "node \<Rightarrow> string option"
  translateCalls :: "call list"

text \<open>
  \<^verbatim>\<open>node.nodeValue = v\<close>: nothing happens on a node whose \<^verbatim>\<open>nodeValue\<close> is \<^verbatim>\<open>null\<close>
  (an element, a document); the value of an attribute or of character data is replaced.
\<close>

definition setNodeValue :: "state \<Rightarrow> node \<Rightarrow> string \<Rightarrow> state" where
  "setNodeValue st n v =
     (if nodeValue st n = None then st
      else st\<lparr>nodeValue := (nodeValue st)(n := Some v)\<rparr>)"

subsection \<open>The filter and the score\<close>

definition isTranslatableNode :: "DOM \<Rightarrow> InnerConfig \<Rightarrow> node \<Rightarrow> bool" where
  "isTranslatableNode d cfg targetNode =
     (let ignored = (\<lambda>n. kind d n = Element \<and> localName d n \<in> ignoredTags cfg);
          checkParents = (\<lambda>targetToParentsCheck.
            case targetToParentsCheck of
              None \<Rightarrow> True
            | Some e \<Rightarrow>
                (case searchParent d e ignored True of
                   Some ignoredParent \<Rightarrow> False
                 | None \<Rightarrow> True))
      in case kind d targetNode of
           Element \<Rightarrow>
             if localName d targetNode \<in> ignoredTags cfg then False
             else checkParents (Some targetNode)
         | Attr \<Rightarrow>
             if attrName d targetNode \<notin> translatableAttributes cfg then False
             else checkParents (ownerElement d targetNode)
         | Text \<Rightarrow> checkParents (parentElement d targetNode)
         | Other \<Rightarrow> False)"

definition isIntersectableNode :: "DOM \<Rightarrow> node \<Rightarrow> bool" where
  "isIntersectableNode d n =
     (if nodeName d n = ''OPTION'' then False else bodyContains d n)"

definition getNodeScore :: "DOM \<Rightarrow> node \<Rightarrow> nat" where
  "getNodeScore d n =
     (case kind d n of
        Attr \<Rightarrow>
          1 + (case ownerElement d n of
                 Some parent \<Rightarrow> if isInViewport d parent 0 then 2 else 0
               | None \<Rightarrow> 0)
      | Text \<Rightarrow>
          2 + (case parentElement d n of
                 Some parent \<Rightarrow> if isInViewport d parent 0 then 2 else 0
               | None \<Rightarrow> 0)
      | _ \<Rightarrow> 0)"

subsection \<open>translateNode and its continuation\<close>

definition translateNode :: "state \<Rightarrow> node \<Rightarrow> error + state" where
  "translateNode st n =
     (case nodeStorage st n of
        None \<Rightarrow> Inl (Error ''Node is not register'')
      | Some nodeData \<Rightarrow>
          (case nodeValue st n of
             None \<Rightarrow> Inr st
           | Some v \<Rightarrow>
               if updateId nodeData \<le> translateContext nodeData then Inr st
               else Inr (st\<lparr>translateCalls := translateCalls st @
                      [\<lparr> callNode = n, callText = v, callPriority = priority nodeData,
                         nodeId = id' nodeData, nodeContext = updateId nodeData \<rparr>]\<rparr>)))"

text \<open>
  The record after the two assignments of the continuation, before
  \<^verbatim>\<open>node.nodeValue = text\<close>.
\<close>

definition commitRecord :: "state \<Rightarrow> node \<Rightarrow> NodeData \<Rightarrow> state" where
  "commitRecord st n actualNodeData =
     st\<lparr>nodeStorage := (nodeStorage st)(n \<mapsto>
          actualNodeData\<lparr> originalText := (case nodeValue st n of Some v \<Rightarrow> v | None \<Rightarrow> []),
                          translateContext := updateId actualNodeData + 1 \<rparr>)\<rparr>"

text \<open>
  The function given to \<^verbatim>\<open>then\<close>, run in the state in which the promise of
  \<^verbatim>\<open>translateCallback\<close> is fulfilled with \<open>text\<close>. It returns the node, or
  \<^verbatim>\<open>undefined\<close>.
\<close>

definition thenCallback :: "state \<Rightarrow> call \<Rightarrow> string \<Rightarrow> state \<times> node option" where
  "thenCallback st c text =
     (case nodeStorage st (callNode c) of
        None \<Rightarrow> (st, None)
      | Some actualNodeData \<Rightarrow>
          if nodeId c \<noteq> id' actualNodeData then (st, None)
          else if nodeContext c \<noteq> updateId actualNodeData then (st, None)
          else (setNodeValue (commitRecord st (callNode c) actualNodeData) (callNode c) text,
                Some (callNode c)))"

text \<open>
  The promise that \<^verbatim>\<open>translateNode\<close> returns is \<^verbatim>\<open>translateCallback(...).then(f)\<close>:
  when the inner promise is rejected, \<open>f\<close> does not run and the promise is rejected
  with the same reason.
\<close>

datatype 'a settled = Fulfilled 'a | Rejected string

definition translateSettled ::
  "state \<Rightarrow> call \<Rightarrow> string settled \<Rightarrow> state \<times> node option settled" where
  "translateSettled st c outcome =
     (case outcome of
        Rejected reason \<Rightarrow> (st, Rejected reason)
      | Fulfilled text \<Rightarrow>
          (case thenCallback st c text of (st', v) \<Rightarrow> (st', Fulfilled v)))"

subsection \<open>handleNode, updateNode\<close>

definition handleNode :: "DOM \<Rightarrow> InnerConfig \<Rightarrow> state \<Rightarrow> node \<Rightarrow> error + state" where
  "handleNode d cfg st n =
     (if nodeStorage st n \<noteq> None then Inr st
      else if (case nodeValue st n of None \<Rightarrow> True | Some v \<Rightarrow> length (trim v) = 0)
        then Inr st
      else if \<not> isTranslatableNode d cfg n then Inr st
      else
        translateNode
          (st\<lparr> nodeStorage := (nodeStorage st)(n \<mapsto>
                 \<lparr> id' = idCounter st, updateId = 1, translateContext = 0,
                   originalText = [], priority = getNodeScore d n \<rparr>),
               idCounter := idCounter st + 1 \<rparr>) n)"

definition updateNode :: "state \<Rightarrow> node \<Rightarrow> error + state" where
  "updateNode st n =
     (case nodeStorage st n of
        None \<Rightarrow> Inr st
      | Some nodeData \<Rightarrow>
          translateNode
            (st\<lparr>nodeStorage := (nodeStorage st)(n \<mapsto>
                 nodeData\<lparr>updateId := updateId nodeData + 1\<rparr>)\<rparr>) n)"

text \<open>The object \<^verbatim>\<open>{ originalText }\<close> that \<^verbatim>\<open>getNodeData\<close> returns is its one field.\<close>

definition getNodeData :: "state \<Rightarrow> node \<Rightarrow> string option" where
  "getNodeData st n =
     (case nodeStorage st n of None \<Rightarrow> None | Some nodeData \<Rightarrow> Some (originalText nodeData))"

subsection \<open>The viewport gate\<close>

definition handleElementByIntersectViewport :: "state \<Rightarrow> node \<Rightarrow> state" where
  "handleElementByIntersectViewport st n =
     (if n \<in> itersectStorage st then st
      else st\<lparr> itersectStorage := insert n (itersectStorage st),
               itersectObserver := insert n (itersectObserver st) \<rparr>)"

text \<open>A \<^verbatim>\<open>forEach\<close> whose body may throw: the first exception ends the loop.\<close>

fun forEach :: "('a \<Rightarrow> 's \<Rightarrow> error + 's) \<Rightarrow> 'a list \<Rightarrow> 's \<Rightarrow> error + 's" where
  "forEach f [] s = Inr s"
| "forEach f (x # xs) s =
     (case f x s of Inl e \<Rightarrow> Inl e | Inr s' \<Rightarrow> forEach f xs s')"

definition intersectNode :: "DOM \<Rightarrow> InnerConfig \<Rightarrow> state \<Rightarrow> node \<Rightarrow> error + state" where
  "intersectNode d cfg st e =
     forEach (\<lambda>n s. if kind d n = Element \<or> \<not> isTranslatableNode d cfg n then Inr s
                     else handleNode d cfg s n)
       (childNodes d e) st"

text \<open>
  The callback of the \<^verbatim>\<open>IntersectionObserver\<close>; an entry is its target and
  \<^verbatim>\<open>isIntersecting\<close>.
\<close>

definition itersectCallback ::
  "DOM \<Rightarrow> InnerConfig \<Rightarrow> state \<Rightarrow> (node \<times> bool) list \<Rightarrow> error + state" where
  "itersectCallback d cfg st entries =
     forEach (\<lambda>(n, isIntersecting) s.
                if n \<notin> itersectStorage s \<or> \<not> isIntersecting then Inr s
                else intersectNode d cfg
                       (s\<lparr> itersectStorage := itersectStorage s - {n},
                           itersectObserver := itersectObserver s - {n} \<rparr>) n)
       entries st"

subsection \<open>nodeExplore, handleTree\<close>

text \<open>
  \<^verbatim>\<open>nodeExplore\<close> steps through a walker, from its first node or from the next one, until
  the handler returns \<^verbatim>\<open>false\<close>. The handler gets the node with its shadow root and
  returns the new state and whether it returned \<^verbatim>\<open>false\<close>.
\<close>

fun nodeExplore_loop ::
  "(node \<times> walker list option \<Rightarrow> 's \<Rightarrow> 's \<times> bool)
     \<Rightarrow> (node \<times> walker list option) list \<Rightarrow> 's \<Rightarrow> 's" where
  "nodeExplore_loop handler [] s = s"
| "nodeExplore_loop handler (n # rest) s =
     (case handler n s of
        (s', True) \<Rightarrow> s'
      | (s', False) \<Rightarrow> nodeExplore_loop handler rest s')"

definition nodeExplore ::
  "walker \<Rightarrow> bool \<Rightarrow> (node \<times> walker list option \<Rightarrow> 's \<Rightarrow> 's \<times> bool) \<Rightarrow> 's \<Rightarrow> 's" where
  "nodeExplore walk includeSelf handler s =
     (case walk of Walker ns \<Rightarrow>
        nodeExplore_loop handler (if includeSelf then ns else tl ns) s)"

text \<open>
  \<^verbatim>\<open>handleTree\<close> runs \<^verbatim>\<open>nodeExplore\<close> over the walker of its node, itself included, with a
  handler that never returns \<^verbatim>\<open>false\<close>: the callback on the node, then for an element
  \<^verbatim>\<open>handleTree\<close> on each child of its shadow root and the callback on each attribute.
  The handler calls \<^verbatim>\<open>handleTree\<close> again, so the loop of \<^verbatim>\<open>nodeExplore\<close> is written out
  here as \<open>handleTree_nodes\<close>; \<open>handleTree_nodeExplore\<close> below says that it is that
  loop. The state \<open>'s\<close> is whatever the callback changes.
\<close>

fun handleTree :: "DOM \<Rightarrow> (node \<Rightarrow> 's \<Rightarrow> 's) \<Rightarrow> walker \<Rightarrow> 's \<Rightarrow> 's"
  and handleTree_nodes ::
    "DOM \<Rightarrow> (node \<Rightarrow> 's \<Rightarrow> 's) \<Rightarrow> (node \<times> walker list option) list \<Rightarrow> 's \<Rightarrow> 's"
  and handleShadow :: "DOM \<Rightarrow> (node \<Rightarrow> 's \<Rightarrow> 's) \<Rightarrow> walker list \<Rightarrow> 's \<Rightarrow> 's"
where
  "handleTree d callback (Walker ns) s = handleTree_nodes d callback ns s"
| "handleTree_nodes d callback [] s = s"
| "handleTree_nodes d callback ((n, shadowRoot) # rest) s =
     handleTree_nodes d callback rest
       (let s1 = callback n s in
        if kind d n = Element then
          fold callback (attributes d n)
            (case shadowRoot of
               None \<Rightarrow> s1
             | Some children \<Rightarrow> handleShadow d callback children s1)
        else s1)"
| "handleShadow d callback [] s = s"
| "handleShadow d callback (child # rest) s =
     handleShadow d callback rest (handleTree d callback child s)"

subsection \<open>addNode, deleteNode\<close>

text \<open>
  The callback that \<^verbatim>\<open>addNode\<close> gives to \<^verbatim>\<open>handleTree\<close> may throw, so the state it
  works on is \<open>error + state\<close>: after an exception nothing more is done.
\<close>

function addNode :: "DOM \<Rightarrow> InnerConfig \<Rightarrow> state \<Rightarrow> node \<Rightarrow> error + state" where
  "addNode d cfg st n =
     (if kind d n = Element then
        handleTree d
          (\<lambda>x r. if kind d x = Element then r
                 else if isTranslatableNode d cfg x
                   then (case r of Inl e \<Rightarrow> Inl e | Inr s \<Rightarrow> addNode d cfg s x)
                 else r)
          (createTreeWalker d n) (Inr st)
      else
        (let deferred =
           (if lazyTranslate cfg then
              (let isAttachedToDOM = (getRootNode d n \<noteq> n);
                   observableNode =
                     (if kind d n = Attr then ownerElement d n else parentElement d n)
               in case observableNode of
                    None \<Rightarrow> None
                  | Some e \<Rightarrow>
                      if isAttachedToDOM \<and> isIntersectableNode d e then Some e else None)
            else None)
         in case deferred of
              Some e \<Rightarrow> Inr (handleElementByIntersectViewport st e)
            | None \<Rightarrow> handleNode d cfg st n))"
  by pat_completeness auto
termination
  by (relation "measure (\<lambda>(d, cfg, st, n). if kind d n = Element then 1 else 0)") auto

declare addNode.simps [simp del]

function deleteNode :: "DOM \<Rightarrow> state \<Rightarrow> node \<Rightarrow> bool \<Rightarrow> state" where
  "deleteNode d st n onlyTarget =
     (let st1 =
        (if kind d n = Element then
           (let st0 =
              (if \<not> onlyTarget
               then handleTree d (\<lambda>x s. deleteNode d s x True) (createTreeWalker d n) st
               else st)
            in st0\<lparr> itersectStorage := itersectStorage st0 - {n},
                    itersectObserver := itersectObserver st0 - {n} \<rparr>)
         else st)
      in case nodeStorage st1 n of
           None \<Rightarrow> st1
         | Some nodeData \<Rightarrow>
             (setNodeValue st1 n (originalText nodeData))
               \<lparr>nodeStorage := (nodeStorage (setNodeValue st1 n (originalText nodeData)))(n := None)\<rparr>)"
  by pat_completeness auto
termination
  by (relation "measure (\<lambda>(d, st, n, onlyTarget). if onlyTarget then 0 else 1)") auto

declare deleteNode.simps [simp del]

subsection \<open>observe, unobserve and the handlers of the mutation observer\<close>

definition observe :: "DOM \<Rightarrow> InnerConfig \<Rightarrow> state \<Rightarrow> node \<Rightarrow> error + state" where
  "observe d cfg st n =
     (if observedNodesStorage st n \<noteq> None then Inl (Error ''Node already under observe'')
      else
        addNode d cfg
          (st\<lparr> observedNodesStorage := (observedNodesStorage st)(n \<mapsto> length (observers st)),
               observers := observers st @ [True] \<rparr>) n)"

definition unobserve :: "DOM \<Rightarrow> state \<Rightarrow> node \<Rightarrow> error + state" where
  "unobserve d st n =
     (if observedNodesStorage st n = None then Inl (Error ''Node is not under observe'')
      else
        (let st1 = deleteNode d st n False;
             st2 = (case observedNodesStorage st1 n of
                      None \<Rightarrow> st1
                    | Some observer \<Rightarrow>
                        st1\<lparr>observers := (observers st1)[observer := False]\<rparr>)
         in Inr (st2\<lparr>observedNodesStorage := (observedNodesStorage st2)(n := None)\<rparr>)))"

datatype event =
    ElementAdded node
  | ElementRemoved node
  | CharacterData node
  | ChangeAttribute node "string option"

definition handleEvent :: "DOM \<Rightarrow> InnerConfig \<Rightarrow> state \<Rightarrow> event \<Rightarrow> error + state" where
  "handleEvent d cfg st ev =
     (case ev of
        ElementAdded target \<Rightarrow> addNode d cfg st target
      | ElementRemoved target \<Rightarrow> Inr (deleteNode d st target False)
      | CharacterData target \<Rightarrow> updateNode st target
      | ChangeAttribute target attributeName \<Rightarrow>
          (case attributeName of
             None \<Rightarrow> Inr st
           | Some a \<Rightarrow>
               if kind d target \<noteq> Element then Inr st
               else
                 (case getNamedItem d target a of
                    None \<Rightarrow> Inr st
                  | Some attribute \<Rightarrow>
                      if nodeStorage st attribute = None then addNode d cfg st attribute
                      else updateNode st attribute)))"

text \<open>A translator as the field initialisers leave it, on a document with the given text.\<close>

definition newNodesTranslator :: "(node \<Rightarrow> string option) \<Rightarrow> state" where
  "newNodesTranslator content =
     \<lparr> observedNodesStorage = Map.empty, observers = [], itersectStorage = {},
       itersectObserver = {}, idCounter = 0, nodeStorage = Map.empty,
       nodeValue = content, translateCalls = [] \<rparr>"

section \<open>PageTranslator\<close>

record PageTranslateState =
  resolved :: int
  rejected :: int
  pending :: int

text \<open>
  What the function \<^verbatim>\<open>translateText\<close> made by \<^verbatim>\<open>run\<close> has captured: the token
  \<^verbatim>\<open>localContext\<close> and the counters object \<^verbatim>\<open>localTranslateState\<close>, which is a reference.
\<close>

record closure =
  localContext :: nat
  localTranslateState :: nat

text \<open>
  \<^verbatim>\<open>Symbol()\<close> gives a value that differs from every other one: the symbols are numbered
  as they are made, \<open>symbols\<close> counts them. The counters objects are numbered the same
  way, \<open>stateObjects\<close> is their content and \<open>translateState\<close> the current one. The
  translator comes with the function \<^verbatim>\<open>translateText\<close> it was given.
  \<^verbatim>\<open>translateStateUpdate\<close> publishes the counters with a throttle on the clock; here
  \<open>stateUpdates\<close> counts its calls.
\<close>

record PageTranslator =
  translateContext' :: nat
  symbols :: nat
  pageTranslator :: "(closure \<times> state) option"
  pageTranslateDirection :: "(string \<times> string) option"
  translateState :: nat
  stateObjects :: "nat \<Rightarrow> PageTranslateState"
  objects :: nat
  originalTextPopup :: "bool option"
  nodesTranslatorConfig :: Config
  mouseoverListener :: bool
  stateUpdates :: nat

definition newPageTranslator :: "bool option \<Rightarrow> Config \<Rightarrow> PageTranslator" where
  "newPageTranslator popup nodesConfig =
     \<lparr> translateContext' = 0, symbols = 1, pageTranslator = None,
       pageTranslateDirection = None, translateState = 0,
       stateObjects = (\<lambda>_. \<lparr> resolved = 0, rejected = 0, pending = 0 \<rparr>), objects = 1,
       originalTextPopup = popup, nodesTranslatorConfig = nodesConfig,
       mouseoverListener = False, stateUpdates = 0 \<rparr>"

definition updateConfig :: "PageTranslator \<Rightarrow> bool option \<Rightarrow> PageTranslator" where
  "updateConfig p popup = p\<lparr>originalTextPopup := popup\<rparr>"

definition isRun :: "PageTranslator \<Rightarrow> bool" where
  "isRun p = (pageTranslator p \<noteq> None)"

definition getStatus :: "PageTranslator \<Rightarrow> PageTranslateState" where
  "getStatus p = stateObjects p (translateState p)"

definition translateStateUpdate :: "PageTranslator \<Rightarrow> PageTranslator" where
  "translateStateUpdate p = p\<lparr>stateUpdates := stateUpdates p + 1\<rparr>"

text \<open>
  \<^verbatim>\<open>translateText\<close> in its four parts: the call up to the request to the backend (a
  \<^verbatim>\<open>throw\<close> in the async function is a rejected promise), and the functions given to
  \<^verbatim>\<open>then\<close>, \<^verbatim>\<open>catch\<close> and \<^verbatim>\<open>finally\<close>.
\<close>

definition translateText_call :: "PageTranslator \<Rightarrow> closure \<Rightarrow> error + PageTranslator" where
  "translateText_call p cl =
     (if localContext cl \<noteq> translateContext' p then Inl (Error ''Outdated context'')
      else
        Inr (translateStateUpdate
          (p\<lparr>stateObjects := (stateObjects p)(localTranslateState cl :=
               (stateObjects p (localTranslateState cl))
                 \<lparr>pending := pending (stateObjects p (localTranslateState cl)) + 1\<rparr>)\<rparr>)))"

definition translateText_then :: "PageTranslator \<Rightarrow> closure \<Rightarrow> PageTranslator" where
  "translateText_then p cl =
     (if localContext cl = translateContext' p
      then p\<lparr>stateObjects := (stateObjects p)(localTranslateState cl :=
               (stateObjects p (localTranslateState cl))
                 \<lparr>resolved := resolved (stateObjects p (localTranslateState cl)) + 1\<rparr>)\<rparr>
      else p)"

definition translateText_catch :: "PageTranslator \<Rightarrow> closure \<Rightarrow> PageTranslator" where
  "translateText_catch p cl =
     (if localContext cl = translateContext' p
      then p\<lparr>stateObjects := (stateObjects p)(localTranslateState cl :=
               (stateObjects p (localTranslateState cl))
                 \<lparr>rejected := rejected (stateObjects p (localTranslateState cl)) + 1\<rparr>)\<rparr>
      else p)"

definition translateText_finally :: "PageTranslator \<Rightarrow> closure \<Rightarrow> PageTranslator" where
  "translateText_finally p cl =
     (if localContext cl = translateContext' p
      then translateStateUpdate
             (p\<lparr>stateObjects := (stateObjects p)(localTranslateState cl :=
                  (stateObjects p (localTranslateState cl))
                    \<lparr>pending := pending (stateObjects p (localTranslateState cl)) - 1\<rparr>)\<rparr>)
      else p)"

text \<open>
  The translator calls \<^verbatim>\<open>translateText\<close> once for each call it has recorded; a rejected
  promise is not an exception there.
\<close>

definition issueCalls :: "closure \<Rightarrow> call list \<Rightarrow> PageTranslator \<Rightarrow> PageTranslator" where
  "issueCalls cl calls p =
     fold (\<lambda>c q. case translateText_call q cl of Inl e \<Rightarrow> q | Inr q' \<Rightarrow> q') calls p"

text \<open>
  \<^verbatim>\<open>run\<close> on a document with the given text; \<^verbatim>\<open>stop\<close> also returns the text that the
  stopped translator leaves.
\<close>

definition run ::
  "DOM \<Rightarrow> (node \<Rightarrow> string option) \<Rightarrow> string \<Rightarrow> string \<Rightarrow> PageTranslator
     \<Rightarrow> error + PageTranslator" where
  "run d content from' to p =
     (if pageTranslator p \<noteq> None then Inl (Error ''Page already translated'')
      else
        (let p1 = p\<lparr> translateContext' := symbols p, symbols := symbols p + 1 \<rparr>;
             cl = \<lparr> localContext = translateContext' p1,
                    localTranslateState = translateState p1 \<rparr>;
             p2 = p1\<lparr>pageTranslateDirection := Some (from', to)\<rparr>
         in case observe d (innerConfig (Some (nodesTranslatorConfig p)))
                   (newNodesTranslator content) (documentElement d) of
              Inl e \<Rightarrow> Inl e
            | Inr nt \<Rightarrow>
                (let p3 = (issueCalls cl (translateCalls nt) p2)\<lparr>pageTranslator := Some (cl, nt)\<rparr>
                 in Inr (if originalTextPopup p3 = Some True
                         then p3\<lparr>mouseoverListener := True\<rparr> else p3))))"

definition stop ::
  "DOM \<Rightarrow> PageTranslator \<Rightarrow> error + PageTranslator \<times> (node \<Rightarrow> string option)" where
  "stop d p =
     (case pageTranslator p of
        None \<Rightarrow> Inl (Error ''Page is not translated'')
      | Some (cl, nt) \<Rightarrow>
          (case unobserve d nt (documentElement d) of
             Inl e \<Rightarrow> Inl e
           | Inr nt' \<Rightarrow>
               (let p1 = p\<lparr> pageTranslator := None, pageTranslateDirection := None \<rparr>;
                    p2 = p1\<lparr> translateContext' := symbols p1, symbols := symbols p1 + 1 \<rparr>;
                    p3 = p2\<lparr> translateState := objects p2,
                             stateObjects := (stateObjects p2)(objects p2 :=
                               \<lparr> resolved = 0, rejected = 0, pending = 0 \<rparr>),
                             objects := objects p2 + 1 \<rparr>;
                    p4 = translateStateUpdate p3
                in Inr (if originalTextPopup p4 = Some True
                        then p4\<lparr>mouseoverListener := False\<rparr> else p4,
                        nodeValue nt'))))"

text \<open>An event of the mutation observer of the running translator.\<close>

definition translatorEvent :: "DOM \<Rightarrow> event \<Rightarrow> PageTranslator \<Rightarrow> PageTranslator" where
  "translatorEvent d ev p =
     (case pageTranslator p of
        None \<Rightarrow> p
      | Some (cl, nt) \<Rightarrow>
          (case handleEvent d (innerConfig (Some (nodesTranslatorConfig p))) nt ev of
             Inl e \<Rightarrow> p
           | Inr nt' \<Rightarrow>
               (issueCalls cl (drop (length (translateCalls nt)) (translateCalls nt')) p)
                 \<lparr>pageTranslator := Some (cl, nt')\<rparr>))"

text \<open>
  What can happen to a \<^verbatim>\<open>PageTranslator\<close>, in any order: its methods, the events of its
  translator, and the parts of any \<^verbatim>\<open>translateText\<close>. A method that throws leaves the
  object as it was (each throws before its first assignment).
\<close>

datatype pageStep =
    Run DOM "node \<Rightarrow> string option" string string
  | Stop DOM
  | UpdateConfig "bool option"
  | TranslatorEvent DOM event
  | Call closure
  | Then closure
  | Catch closure
  | Finally closure

fun step :: "pageStep \<Rightarrow> PageTranslator \<Rightarrow> PageTranslator" where
  "step (Run d content from' to) p = (case run d content from' to p of Inl e \<Rightarrow> p | Inr p' \<Rightarrow> p')"
| "step (Stop d) p = (case stop d p of Inl e \<Rightarrow> p | Inr (p', content) \<Rightarrow> p')"
| "step (UpdateConfig popup) p = updateConfig p popup"
| "step (TranslatorEvent d ev) p = translatorEvent d ev p"
| "step (Call cl) p = (case translateText_call p cl of Inl e \<Rightarrow> p | Inr p' \<Rightarrow> p')"
| "step (Then cl) p = translateText_then p cl"
| "step (Catch cl) p = translateText_catch p cl"
| "step (Finally cl) p = translateText_finally p cl"

section \<open>An example document\<close>

text \<open>
  The document \<open>12\<close> has the root element \<open>11\<close> with the body \<open>0\<close>, which holds
  \<^verbatim>\<open><div title="Hola"><script>x</script>Hello<!--note--><span/></div>\<close>:
  the \<^verbatim>\<open>div\<close> is \<open>1\<close>, its attribute \<open>2\<close>, the script \<open>3\<close> with its text \<open>4\<close>, the text
  \<open>5\<close>, the comment \<open>10\<close>, and the \<^verbatim>\<open>span\<close> \<open>6\<close>, whose shadow root \<open>9\<close> holds
  \<^verbatim>\<open><p>Mundo</p>\<close> (\<open>7\<close> and \<open>8\<close>).
\<close>

definition exampleWalk :: "(node \<times> walker list option) list" where
  "exampleWalk =
     [(1, None), (3, None), (4, None), (5, None), (10, None),
      (6, Some [Walker [(7, None), (8, None)]])]"

definition exampleDOM :: DOM where
  "exampleDOM =
     \<lparr> kind = (\<lambda>n. if n \<in> {0, 1, 3, 6, 7, 11} then Element else if n = 2 then Attr
                    else if n \<in> {4, 5, 8} then Text else Other),
       localName = (\<lambda>n. if n = 0 then ''body'' else if n = 1 then ''div''
                    else if n = 3 then ''script'' else if n = 6 then ''span''
                    else if n = 7 then ''p'' else if n = 11 then ''html'' else []),
       nodeName = (\<lambda>n. if n = 0 then ''BODY'' else if n = 1 then ''DIV''
                    else if n = 3 then ''SCRIPT'' else if n = 6 then ''SPAN''
                    else if n = 7 then ''P'' else if n = 11 then ''HTML''
                    else if n = 2 then ''title'' else ''#text''),
       attrName = (\<lambda>n. if n = 2 then ''title'' else []),
       parentChain = (\<lambda>n. if n = 11 then [12] else if n = 0 then [11, 12]
                    else if n = 1 then [0, 11, 12] else if n = 3 then [1, 0, 11, 12]
                    else if n = 4 then [3, 1, 0, 11, 12]
                    else if n \<in> {5, 6, 10} then [1, 0, 11, 12]
                    else if n = 7 then [9] else if n = 8 then [7, 9] else []),
       ownerElement = (\<lambda>n. if n = 2 then Some 1 else None),
       childNodes = (\<lambda>n. if n = 12 then [11] else if n = 11 then [0]
                    else if n = 0 then [1] else if n = 1 then [3, 5, 10, 6]
                    else if n = 3 then [4] else if n = 7 then [8]
                    else if n = 9 then [7] else []),
       attributes = (\<lambda>n. if n = 1 then [2] else []),
       getRootNode = (\<lambda>n. if n = 2 then 2 else if n \<in> {7, 8, 9} then 9 else 12),
       bodyContains = (\<lambda>n. n \<in> {0, 1, 3, 4, 5, 6, 10}),
       createTreeWalker = (\<lambda>n. if n = 1 then Walker exampleWalk
                    else if n = 0 then Walker ((0, None) # exampleWalk)
                    else if n = 11 then Walker ((11, None) # (0, None) # exampleWalk)
                    else if n = 3 then Walker [(3, None), (4, None)]
                    else if n = 6 then Walker [(6, Some [Walker [(7, None), (8, None)]])]
                    else if n = 7 then Walker [(7, None), (8, None)]
                    else Walker [(n, None)]),
       documentElement = 11,
       getBoundingClientRect = (\<lambda>n. \<lparr> top' = 0, left = 0, bottom = 10, right = 10,
                                        height = 10, width = 10 \<rparr>),
       innerHeight = 600, innerWidth = 800, clientHeight = 600, clientWidth = 800 \<rparr>"

definition exampleContent :: "node \<Rightarrow> string option" where
  "exampleContent =
     (\<lambda>n. if n = 2 then Some ''Hola'' else if n = 4 then Some ''x''
           else if n = 5 then Some ''Hello'' else if n = 8 then Some ''Mundo''
           else if n = 10 then Some ''note'' else None)"

definition exampleConfig :: "bool option \<Rightarrow> InnerConfig" where
  "exampleConfig lazy =
     innerConfig (Some \<lparr> ignoredTags' = Some [''script'', ''style''],
                         translatableAttributes' = Some [''title''],
                         lazyTranslate' = lazy \<rparr>)"

text \<open>The text \<open>5\<close> registered, its first translation not yet asked for, then in flight.\<close>

definition exampleRecord :: NodeData where
  "exampleRecord =
     \<lparr> id' = 0, updateId = 1, translateContext = 0, originalText = [], priority = 4 \<rparr>"

definition exampleCall :: call where
  "exampleCall =
     \<lparr> callNode = 5, callText = ''Hello'', callPriority = 4, nodeId = 0, nodeContext = 1 \<rparr>"

definition exampleRegistered :: state where
  "exampleRegistered =
     (newNodesTranslator exampleContent)
       \<lparr> idCounter := 1, nodeStorage := [5 \<mapsto> exampleRecord] \<rparr>"

definition examplePending :: state where
  "examplePending = exampleRegistered \<lparr> translateCalls := [exampleCall] \<rparr>"


text \<open>
  The translator in lazy mode after \<^verbatim>\<open>observe\<close> of the \<^verbatim>\<open>div\<close> \<open>1\<close>: the attribute \<open>2\<close>
  and the text \<open>8\<close> of the shadow tree are registered and their translations are in
  flight, the \<^verbatim>\<open>div\<close> waits at the viewport gate for its text \<open>5\<close>.
\<close>

definition exampleObserved :: state where
  "exampleObserved =
     (newNodesTranslator exampleContent)
       \<lparr> observedNodesStorage := [1 \<mapsto> 0], observers := [True],
         itersectStorage := {1}, itersectObserver := {1}, idCounter := 2,
         nodeStorage :=
           [2 \<mapsto> \<lparr> id' = 0, updateId = 1, translateContext = 0,
                    originalText = [], priority = 3 \<rparr>,
            8 \<mapsto> \<lparr> id' = 1, updateId = 1, translateContext = 0,
                    originalText = [], priority = 4 \<rparr>],
         translateCalls :=
           [\<lparr> callNode = 2, callText = ''Hola'', callPriority = 3, nodeId = 0,
              nodeContext = 1 \<rparr>,
            \<lparr> callNode = 8, callText = ''Mundo'', callPriority = 4, nodeId = 1,
              nodeContext = 1 \<rparr>] \<rparr>"

section \<open>Predicates of the statements\<close>

text \<open>
  The record of the call's node is still there, with the identity and the version that
  the call captured.
\<close>

definition stillLive :: "state \<Rightarrow> call \<Rightarrow> bool" where
  "stillLive st c =
     (case nodeStorage st (callNode c) of
        None \<Rightarrow> False
      | Some r \<Rightarrow> id' r = nodeId c \<and> updateId r = nodeContext c)"

text \<open>An element whose tag is in the ignore-set; no such node among an element and its ancestors.\<close>

definition ignoredElement :: "DOM \<Rightarrow> InnerConfig \<Rightarrow> node \<Rightarrow> bool" where
  "ignoredElement d cfg x = (kind d x = Element \<and> localName d x \<in> ignoredTags cfg)"

definition noIgnoredAncestor :: "DOM \<Rightarrow> InnerConfig \<Rightarrow> node \<Rightarrow> bool" where
  "noIgnoredAncestor d cfg e = (\<forall>x \<in> set (e # parentChain d e). \<not> ignoredElement d cfg x)"

text \<open>
  The owning element of a unit, and the condition under which lazy mode defers it: the
  unit is attached (its root is another node) and the owning element is no
  \<^verbatim>\<open>OPTION\<close> and is contained in the body.
\<close>

definition owningElement :: "DOM \<Rightarrow> node \<Rightarrow> node option" where
  "owningElement d n = (if kind d n = Attr then ownerElement d n else parentElement d n)"

definition deferred :: "DOM \<Rightarrow> InnerConfig \<Rightarrow> node \<Rightarrow> bool" where
  "deferred d cfg n =
     (lazyTranslate cfg \<and> getRootNode d n \<noteq> n \<and>
      (case owningElement d n of
         None \<Rightarrow> False
       | Some e \<Rightarrow> nodeName d e \<noteq> ''OPTION'' \<and> bodyContains d e))"

text \<open>No text, or white space only.\<close>

definition blank :: "string option \<Rightarrow> bool" where
  "blank v = (case v of None \<Rightarrow> True | Some s \<Rightarrow> \<forall>c \<in> set s. isWhiteSpace c)"

text \<open>Every identity in the store was given out by the counter.\<close>

definition idsBelowCounter :: "state \<Rightarrow> bool" where
  "idsBelowCounter st = (\<forall>n r. nodeStorage st n = Some r \<longrightarrow> id' r < idCounter st)"

text \<open>No two records of the store have the same identity.\<close>

definition identitiesDistinct :: "state \<Rightarrow> bool" where
  "identitiesDistinct st =
     (\<forall>n m r r'. nodeStorage st n = Some r \<longrightarrow> nodeStorage st m = Some r' \<longrightarrow>
        id' r = id' r' \<longrightarrow> n = m)"

text \<open>
  From \<open>st\<close> to \<open>st'\<close> only nodes of \<open>S\<close> have had their record changed, no text has
  changed, and the calls of \<^verbatim>\<open>translateCallback\<close> made in between are for nodes of \<open>S\<close>.
\<close>

definition touchesOnly :: "node set \<Rightarrow> state \<Rightarrow> state \<Rightarrow> bool" where
  "touchesOnly S st st' =
     ((\<forall>m. m \<notin> S \<longrightarrow> nodeStorage st' m = nodeStorage st m) \<and>
      nodeValue st' = nodeValue st \<and>
      (\<exists>cs. translateCalls st' = translateCalls st @ cs \<and> (\<forall>c \<in> set cs. callNode c \<in> S)))"

text \<open>
  The node has a record in \<open>st'\<close>, and if it had none in \<open>st\<close> a call for it was made in
  between.
\<close>

definition translatedNow :: "node \<Rightarrow> state \<Rightarrow> state \<Rightarrow> bool" where
  "translatedNow c st st' =
     (nodeStorage st' c \<noteq> None \<and>
      (nodeStorage st c = None \<longrightarrow>
         (\<exists>cs. translateCalls st' = translateCalls st @ cs \<and> c \<in> callNode ` set cs)))"

text \<open>The children that \<^verbatim>\<open>intersectNode\<close> hands to \<^verbatim>\<open>handleNode\<close>.\<close>

definition visibleChildren :: "DOM \<Rightarrow> InnerConfig \<Rightarrow> node \<Rightarrow> node list" where
  "visibleChildren d cfg e =
     filter (\<lambda>c. kind d c \<noteq> Element \<and> isTranslatableNode d cfg c) (childNodes d e)"

text \<open>
  The nodes that \<^verbatim>\<open>handleTree\<close> gives to its callback, in order: each node of the walker,
  and after an element the nodes of the trees of its shadow root and its attributes.
\<close>

fun visited :: "DOM \<Rightarrow> walker \<Rightarrow> node list"
  and visitedNodes :: "DOM \<Rightarrow> (node \<times> walker list option) list \<Rightarrow> node list"
  and visitedShadow :: "DOM \<Rightarrow> walker list \<Rightarrow> node list"
where
  "visited d (Walker ns) = visitedNodes d ns"
| "visitedNodes d [] = []"
| "visitedNodes d ((n, shadowRoot) # rest) =
     (n # (if kind d n = Element
           then (case shadowRoot of None \<Rightarrow> [] | Some children \<Rightarrow> visitedShadow d children)
                @ attributes d n
           else []))
     @ visitedNodes d rest"
| "visitedShadow d [] = []"
| "visitedShadow d (child # rest) = visited d child @ visitedShadow d rest"

text \<open>What \<^verbatim>\<open>deleteNode\<close> leaves as the text of a node: the stored original of a tracked one.\<close>

definition restoredValue :: "state \<Rightarrow> node \<Rightarrow> string option" where
  "restoredValue st u =
     (case nodeStorage st u of
        None \<Rightarrow> nodeValue st u
      | Some r \<Rightarrow> if nodeValue st u = None then None else Some (originalText r))"

text \<open>
  From \<open>st\<close> to \<open>st'\<close> the identity counter has not gone down, every record is an old one
  or has an identity that the counter of \<open>st\<close> had not given out yet, and no text and no
  mutation watch has changed.
\<close>

definition extends :: "state \<Rightarrow> state \<Rightarrow> bool" where
  "extends st st' =
     (idCounter st \<le> idCounter st' \<and>
      (\<forall>u r. nodeStorage st' u = Some r \<longrightarrow> nodeStorage st u = Some r \<or> idCounter st \<le> id' r) \<and>
      nodeValue st' = nodeValue st \<and>
      observedNodesStorage st' = observedNodesStorage st \<and>
      observers st' = observers st)"

text \<open>The current token is a symbol that has been made.\<close>

definition tokensMinted :: "PageTranslator \<Rightarrow> bool" where
  "tokensMinted p = (translateContext' p < symbols p)"

section \<open>The commit of a translation\<close>

lemmas example_defs =
  exampleDOM_def exampleContent_def exampleConfig_def innerConfig_def
  newNodesTranslator_def exampleRecord_def exampleCall_def exampleRegistered_def
  examplePending_def

text \<open>
  C2. When the promise of \<^verbatim>\<open>translateCallback\<close> is fulfilled, the continuation writes
  the text to the node exactly when the node still has a record with the identity and
  the version captured at the call (it then returns the node). In every other case it
  returns \<^verbatim>\<open>undefined\<close> and the state, records and text of the nodes included, is what
  it was.
\<close>

theorem translation_applied_iff_still_live:
  "(stillLive st c \<longrightarrow>
      snd (thenCallback st c text) = Some (callNode c) \<and>
      (nodeValue st (callNode c) \<noteq> None \<longrightarrow>
         nodeValue (fst (thenCallback st c text)) (callNode c) = Some text)) \<and>
   (\<not> stillLive st c \<longrightarrow> thenCallback st c text = (st, None))"
  by (auto simp: stillLive_def thenCallback_def setNodeValue_def commitRecord_def
      split: option.splits)

theorem translation_applied_iff_still_live_witness:
  "stillLive examplePending exampleCall \<and>
   nodeValue examplePending (callNode exampleCall) \<noteq> None \<and>
   nodeValue (fst (thenCallback examplePending exampleCall ''Bonjour'')) 5 = Some ''Bonjour'' \<and>
   \<not> stillLive examplePending (exampleCall\<lparr>nodeContext := 0\<rparr>) \<and>
   thenCallback examplePending (exampleCall\<lparr>nodeContext := 0\<rparr>) ''Bonjour''
     = (examplePending, None)"
  using translation_applied_iff_still_live [of examplePending exampleCall "''Bonjour''"]
    translation_applied_iff_still_live
      [of examplePending "exampleCall\<lparr>nodeContext := 0\<rparr>" "''Bonjour''"]
  by (simp add: example_defs stillLive_def)

text \<open>
  C1. A call captured the version \<open>V = updateId r\<close> of a record that is still live when
  the translation arrives. The continuation first sets \<open>translateContext\<close> to \<open>V + 1\<close>
  (the text of the node is still the old one in \<open>commitRecord st n r\<close>) and then writes
  the text. The update that this write causes raises \<open>updateId\<close> to \<open>V + 1\<close>, which is
  \<open>translateContext\<close>, and calls \<^verbatim>\<open>translateCallback\<close> no more. An edit after that raises
  \<open>updateId\<close> to \<open>V + 2\<close>, above \<open>translateContext\<close>, and its update calls
  \<^verbatim>\<open>translateCallback\<close> with the edited text.
\<close>

theorem commit_absorbs_own_update:
  assumes "nodeStorage st n = Some r" and "callNode c = n" and "nodeId c = id' r"
    and "nodeContext c = updateId r" and "nodeValue st n \<noteq> None"
  shows "thenCallback st c text = (setNodeValue (commitRecord st n r) n text, Some n) \<and>
     map_option translateContext (nodeStorage (commitRecord st n r) n) = Some (updateId r + 1) \<and>
     nodeValue (commitRecord st n r) = nodeValue st \<and>
     (\<exists>st2. updateNode (fst (thenCallback st c text)) n = Inr st2 \<and>
        translateCalls st2 = translateCalls st \<and>
        map_option updateId (nodeStorage st2 n) = Some (updateId r + 1) \<and>
        map_option translateContext (nodeStorage st2 n) = Some (updateId r + 1) \<and>
        nodeValue st2 n = Some text \<and>
        (\<forall>edited. \<exists>st3. updateNode (setNodeValue st2 n edited) n = Inr st3 \<and>
           map_option updateId (nodeStorage st3 n) = Some (updateId r + 2) \<and>
           map_option translateContext (nodeStorage st3 n) = Some (updateId r + 1) \<and>
           translateCalls st3 = translateCalls st2 @
             [\<lparr> callNode = n, callText = edited, callPriority = priority r,
                nodeId = id' r, nodeContext = updateId r + 2 \<rparr>]))"
  using assms
  by (auto simp: thenCallback_def setNodeValue_def commitRecord_def updateNode_def
      translateNode_def split: option.splits)

theorem commit_absorbs_own_update_witness:
  "nodeStorage examplePending 5 = Some exampleRecord \<and> callNode exampleCall = 5 \<and>
   nodeId exampleCall = id' exampleRecord \<and> nodeContext exampleCall = updateId exampleRecord \<and>
   nodeValue examplePending 5 \<noteq> None \<and>
   (\<exists>st2. updateNode (fst (thenCallback examplePending exampleCall ''Bonjour'')) 5 = Inr st2 \<and>
      translateCalls st2 = [exampleCall] \<and>
      map_option updateId (nodeStorage st2 5) = Some 2 \<and>
      map_option translateContext (nodeStorage st2 5) = Some 2)"
proof -
  have h1: "nodeStorage examplePending 5 = Some exampleRecord"
    and h2: "callNode exampleCall = 5"
    and h3: "nodeId exampleCall = id' exampleRecord"
    and h4: "nodeContext exampleCall = updateId exampleRecord"
    and h5: "nodeValue examplePending 5 \<noteq> None"
    by (simp_all add: example_defs)
  from commit_absorbs_own_update [OF h1 h2 h3 h4 h5, of "''Bonjour''"]
  obtain st2 where
    "updateNode (fst (thenCallback examplePending exampleCall ''Bonjour'')) 5 = Inr st2"
    and "translateCalls st2 = translateCalls examplePending"
    and "map_option updateId (nodeStorage st2 5) = Some (updateId exampleRecord + 1)"
    and "map_option translateContext (nodeStorage st2 5) = Some (updateId exampleRecord + 1)"
    by blast
  moreover have "translateCalls examplePending = [exampleCall]"
    and "updateId exampleRecord + 1 = 2"
    by (simp_all add: examplePending_def exampleRecord_def)
  ultimately show ?thesis
    using h1 h2 h3 h4 h5 by auto
qed

text \<open>
  C8. When the promise of \<^verbatim>\<open>translateCallback\<close> is rejected, the promise of
  \<^verbatim>\<open>translateNode\<close> is rejected with the same reason and the whole state is what it was:
  no record, no text and no further call. The attempt itself (\<^verbatim>\<open>translateNode\<close>)
  changes neither a record nor a text.
\<close>

theorem rejection_changes_nothing:
  "translateSettled st c (Rejected reason) = (st, Rejected reason) \<and>
   (\<forall>st1. translateNode st n = Inr st1 \<longrightarrow>
      nodeStorage st1 = nodeStorage st \<and> nodeValue st1 = nodeValue st \<and>
      idCounter st1 = idCounter st)"
  by (auto simp: translateSettled_def translateNode_def split: option.splits if_splits)

theorem rejection_changes_nothing_witness:
  "translateNode exampleRegistered 5 = Inr examplePending \<and>
   nodeStorage examplePending = nodeStorage exampleRegistered \<and>
   nodeValue examplePending = nodeValue exampleRegistered \<and>
   translateSettled examplePending exampleCall (Rejected ''timeout'')
     = (examplePending, Rejected ''timeout'')"
  using rejection_changes_nothing [of examplePending exampleCall "''timeout''" 5]
    rejection_changes_nothing [of exampleRegistered exampleCall "''timeout''" 5]
  by (simp add: example_defs translateNode_def)

section \<open>The reachability filter\<close>

lemma searchParent_loop_None:
  "searchParent_loop callback xs = None \<longleftrightarrow> (\<forall>x \<in> set xs. \<not> callback x)"
  by (induction xs) auto

lemma searchParent_None:
  "searchParent d e callback True = None \<longleftrightarrow> (\<forall>x \<in> set (e # parentChain d e). \<not> callback x)"
  by (auto simp: searchParent_def searchParent_loop_None)

lemma checkParents_eq:
  "(case searchParent d e (\<lambda>n. kind d n = Element \<and> localName d n \<in> ignoredTags cfg) True of
      Some ignoredParent \<Rightarrow> False | None \<Rightarrow> True) = noIgnoredAncestor d cfg e"
proof -
  let ?cb = "\<lambda>n. kind d n = Element \<and> localName d n \<in> ignoredTags cfg"
  have "(case searchParent d e ?cb True of Some ignoredParent \<Rightarrow> False | None \<Rightarrow> True)
        = (searchParent d e ?cb True = None)"
    by (simp split: option.splits)
  also have "\<dots> = (\<forall>x \<in> set (e # parentChain d e). \<not> ?cb x)"
    by (rule searchParent_None)
  also have "\<dots> = noIgnoredAncestor d cfg e"
    by (simp add: noIgnoredAncestor_def ignoredElement_def)
  finally show ?thesis .
qed

text \<open>
  C7. \<^verbatim>\<open>isTranslatableNode\<close> on the three kinds of unit. An element is eligible exactly
  when its tag is not ignored and no node among it and its ancestors is an element with
  an ignored tag. An attribute is eligible exactly when its name is allowed and its
  owner element, if there is one, passes that walk. A text is eligible exactly when its
  parent element, if there is one, passes that walk. The function reads the document
  and the configuration and returns a truth value; it has no state to change.
\<close>

theorem isTranslatableNode_rules:
  "(kind d n = Element \<longrightarrow>
      isTranslatableNode d cfg n =
        (localName d n \<notin> ignoredTags cfg \<and> noIgnoredAncestor d cfg n)) \<and>
   (kind d n = Attr \<longrightarrow>
      isTranslatableNode d cfg n =
        (attrName d n \<in> translatableAttributes cfg \<and>
         (case ownerElement d n of None \<Rightarrow> True | Some e \<Rightarrow> noIgnoredAncestor d cfg e))) \<and>
   (kind d n = Text \<longrightarrow>
      isTranslatableNode d cfg n =
        (case parentElement d n of None \<Rightarrow> True | Some e \<Rightarrow> noIgnoredAncestor d cfg e))"
  by (simp add: isTranslatableNode_def checkParents_eq split: option.splits)

theorem isTranslatableNode_rules_witness:
  "kind exampleDOM 3 = Element \<and> \<not> isTranslatableNode exampleDOM (exampleConfig None) 3 \<and>
   kind exampleDOM 2 = Attr \<and> isTranslatableNode exampleDOM (exampleConfig None) 2 \<and>
   kind exampleDOM 4 = Text \<and> \<not> isTranslatableNode exampleDOM (exampleConfig None) 4 \<and>
   kind exampleDOM 5 = Text \<and> isTranslatableNode exampleDOM (exampleConfig None) 5"
  using isTranslatableNode_rules [of exampleDOM 3 "exampleConfig None"]
    isTranslatableNode_rules [of exampleDOM 2 "exampleConfig None"]
    isTranslatableNode_rules [of exampleDOM 4 "exampleConfig None"]
    isTranslatableNode_rules [of exampleDOM 5 "exampleConfig None"]
  by (simp add: example_defs noIgnoredAncestor_def ignoredElement_def parentElement_def
      parentNode_def)

text \<open>A node that is no element, attribute or text (a comment) is never eligible.\<close>

lemma isTranslatableNode_Other: "kind d n = Other \<Longrightarrow> \<not> isTranslatableNode d cfg n"
  by (simp add: isTranslatableNode_def)

lemma trim_empty: "(trim s = []) = (\<forall>c \<in> set s. isWhiteSpace c)"
proof (cases "dropWhile isWhiteSpace s = []")
  case True
  have "trim s = []" unfolding trim_def True by simp
  moreover have "\<forall>c \<in> set s. isWhiteSpace c"
    using True unfolding dropWhile_eq_Nil_conv .
  ultimately show ?thesis by simp
next
  case False
  then have "\<not> isWhiteSpace (hd (dropWhile isWhiteSpace s))" by (rule hd_dropWhile)
  moreover have "hd (dropWhile isWhiteSpace s) \<in> set (rev (dropWhile isWhiteSpace s))"
    using False by simp
  ultimately have "dropWhile isWhiteSpace (rev (dropWhile isWhiteSpace s)) \<noteq> []"
    unfolding dropWhile_eq_Nil_conv by blast
  then have "trim s \<noteq> []" by (simp add: trim_def)
  moreover have "\<not> (\<forall>c \<in> set s. isWhiteSpace c)"
    using False unfolding dropWhile_eq_Nil_conv .
  ultimately show ?thesis by simp
qed

lemma handleNode_skip:
  "nodeStorage st n \<noteq> None \<or> blank (nodeValue st n) \<or> \<not> isTranslatableNode d cfg n
   \<Longrightarrow> handleNode d cfg st n = Inr st"
  by (auto simp: handleNode_def blank_def trim_empty split: option.splits)

lemma handleNode_register:
  "nodeStorage st n = None \<Longrightarrow> nodeValue st n = Some v \<Longrightarrow> \<not> blank (Some v) \<Longrightarrow>
   isTranslatableNode d cfg n \<Longrightarrow>
   handleNode d cfg st n =
     Inr (st\<lparr> nodeStorage := (nodeStorage st)(n \<mapsto>
                 \<lparr> id' = idCounter st, updateId = 1, translateContext = 0,
                   originalText = [], priority = getNodeScore d n \<rparr>),
              idCounter := idCounter st + 1,
              translateCalls := translateCalls st @
                 [\<lparr> callNode = n, callText = v, callPriority = getNodeScore d n,
                    nodeId = idCounter st, nodeContext = 1 \<rparr>] \<rparr>)"
  by (auto simp: handleNode_def blank_def trim_empty translateNode_def split: option.splits)

lemma addNode_unit:
  "kind d n \<noteq> Element \<Longrightarrow>
   addNode d cfg st n =
     (if deferred d cfg n then Inr (handleElementByIntersectViewport st (the (owningElement d n)))
      else handleNode d cfg st n)"
  by (auto simp: addNode.simps deferred_def owningElement_def isIntersectableNode_def Let_def
      split: option.splits)

section \<open>Frames of handleNode\<close>

lemma touchesOnly_refl: "touchesOnly S st st"
  by (simp add: touchesOnly_def)

lemma touchesOnly_trans:
  "touchesOnly S st st1 \<Longrightarrow> touchesOnly S st1 st2 \<Longrightarrow> touchesOnly S st st2"
  unfolding touchesOnly_def by (elim conjE exE) (auto)

lemma touchesOnly_mono: "touchesOnly S st st' \<Longrightarrow> S \<subseteq> T \<Longrightarrow> touchesOnly T st st'"
  unfolding touchesOnly_def by blast

lemma handleNode_total: "\<exists>st'. handleNode d cfg st n = Inr st'"
  by (auto simp: handleNode_def translateNode_def split: option.splits)

lemma handleNode_touches:
  assumes "handleNode d cfg st n = Inr st'" shows "touchesOnly {n} st st'"
proof (cases "nodeStorage st n \<noteq> None \<or> blank (nodeValue st n) \<or> \<not> isTranslatableNode d cfg n")
  case True
  with assms show ?thesis by (simp add: handleNode_skip touchesOnly_refl)
next
  case False
  then obtain v where "nodeStorage st n = None" "nodeValue st n = Some v" "\<not> blank (Some v)"
    "isTranslatableNode d cfg n" by (cases "nodeValue st n") (auto simp: blank_def)
  from handleNode_register [OF this] assms show ?thesis
    by (auto simp: touchesOnly_def)
qed

lemma handleNode_translatedNow:
  assumes "handleNode d cfg st n = Inr st'" "\<not> blank (nodeValue st n)" "isTranslatableNode d cfg n"
  shows "translatedNow n st st'"
proof (cases "nodeStorage st n")
  case None
  from assms(2) obtain v where v: "nodeValue st n = Some v" "\<not> blank (Some v)"
    by (cases "nodeValue st n") (auto simp: blank_def)
  from handleNode_register [OF None v assms(3)] assms(1) show ?thesis
    by (auto simp: translatedNow_def)
next
  case (Some r)
  with assms show ?thesis by (simp add: handleNode_skip translatedNow_def)
qed

lemma handleNode_keeps_records:
  assumes "handleNode d cfg st n = Inr st'" "nodeStorage st m \<noteq> None"
  shows "nodeStorage st' m \<noteq> None"
  using assms by (auto simp: handleNode_def translateNode_def split: option.splits if_splits)

lemma forEach_filter:
  "forEach (\<lambda>x s. if \<not> P x then Inr s else f x s) xs s = forEach f (filter P xs) s"
  by (induction xs arbitrary: s) (auto split: sum.splits)

lemma forEach_total:
  "(\<And>x s. x \<in> set xs \<Longrightarrow> \<exists>s'. f x s = Inr s') \<Longrightarrow> \<exists>s'. forEach f xs s = Inr s'"
proof (induction xs arbitrary: s)
  case Nil
  then show ?case by simp
next
  case (Cons x xs)
  from Cons.prems [of x s] obtain s1 where "f x s = Inr s1" by auto
  moreover from Cons.IH [of s1] Cons.prems obtain s' where "forEach f xs s1 = Inr s'" by auto
  ultimately show ?case by simp
qed

lemma forEach_handleNode_touches:
  "forEach (\<lambda>c s. handleNode d cfg s c) xs st = Inr st' \<Longrightarrow> touchesOnly (set xs) st st'"
proof (induction xs arbitrary: st)
  case Nil
  then show ?case by (simp add: touchesOnly_refl)
next
  case (Cons x xs)
  from handleNode_total obtain s1 where s1: "handleNode d cfg st x = Inr s1" by blast
  with Cons.prems have "forEach (\<lambda>c s. handleNode d cfg s c) xs s1 = Inr st'" by simp
  from Cons.IH [OF this] have "touchesOnly (set (x # xs)) s1 st'"
    by (rule touchesOnly_mono) auto
  moreover from handleNode_touches [OF s1] have "touchesOnly (set (x # xs)) st s1"
    by (rule touchesOnly_mono) auto
  ultimately show ?case by (blast intro: touchesOnly_trans)
qed

lemma forEach_handleNode_keeps_records:
  "forEach (\<lambda>c s. handleNode d cfg s c) xs st = Inr st' \<Longrightarrow> nodeStorage st m \<noteq> None
   \<Longrightarrow> nodeStorage st' m \<noteq> None"
proof (induction xs arbitrary: st)
  case Nil
  then show ?case by simp
next
  case (Cons x xs)
  from handleNode_total obtain s1 where s1: "handleNode d cfg st x = Inr s1" by blast
  with Cons.prems have "forEach (\<lambda>c s. handleNode d cfg s c) xs s1 = Inr st'" by simp
  moreover from handleNode_keeps_records [OF s1 Cons.prems(2)] have "nodeStorage s1 m \<noteq> None" .
  ultimately show ?case by (rule Cons.IH)
qed

lemma translatedNow_later:
  assumes "translatedNow c st s1" "touchesOnly S s1 st'" "nodeStorage st' c \<noteq> None"
  shows "translatedNow c st st'"
proof -
  from assms(2) obtain cs2 where cs2: "translateCalls st' = translateCalls s1 @ cs2"
    by (auto simp: touchesOnly_def)
  show ?thesis
    unfolding translatedNow_def
  proof (intro conjI impI)
    show "nodeStorage st' c \<noteq> None" by fact
    assume "nodeStorage st c = None"
    with assms(1) obtain cs where "translateCalls s1 = translateCalls st @ cs" "c \<in> callNode ` set cs"
      by (auto simp: translatedNow_def)
    with cs2 have "translateCalls st' = translateCalls st @ (cs @ cs2)" "c \<in> callNode ` set (cs @ cs2)"
      by auto
    then show "\<exists>cs. translateCalls st' = translateCalls st @ cs \<and> c \<in> callNode ` set cs"
      by blast
  qed
qed

lemma translatedNow_earlier:
  assumes "touchesOnly S st s1" "translatedNow c s1 st'" "nodeStorage s1 c = nodeStorage st c"
  shows "translatedNow c st st'"
proof -
  from assms(1) obtain cs1 where cs1: "translateCalls s1 = translateCalls st @ cs1"
    by (auto simp: touchesOnly_def)
  show ?thesis
    unfolding translatedNow_def
  proof (intro conjI impI)
    show "nodeStorage st' c \<noteq> None" using assms(2) by (simp add: translatedNow_def)
    assume "nodeStorage st c = None"
    with assms(2,3) obtain cs where "translateCalls st' = translateCalls s1 @ cs" "c \<in> callNode ` set cs"
      by (auto simp: translatedNow_def)
    with cs1 have "translateCalls st' = translateCalls st @ (cs1 @ cs)" "c \<in> callNode ` set (cs1 @ cs)"
      by auto
    then show "\<exists>cs. translateCalls st' = translateCalls st @ cs \<and> c \<in> callNode ` set cs"
      by blast
  qed
qed

lemma forEach_handleNode_translates:
  "forEach (\<lambda>c s. handleNode d cfg s c) xs st = Inr st' \<Longrightarrow> c \<in> set xs \<Longrightarrow>
   \<not> blank (nodeValue st c) \<Longrightarrow> isTranslatableNode d cfg c \<Longrightarrow> translatedNow c st st'"
proof (induction xs arbitrary: st)
  case Nil
  then show ?case by simp
next
  case (Cons x xs)
  from handleNode_total obtain s1 where s1: "handleNode d cfg st x = Inr s1" by blast
  with Cons.prems have rest: "forEach (\<lambda>c s. handleNode d cfg s c) xs s1 = Inr st'" by simp
  have t1: "touchesOnly {x} st s1" by (rule handleNode_touches [OF s1])
  have t2: "touchesOnly (set xs) s1 st'" by (rule forEach_handleNode_touches [OF rest])
  show ?case
  proof (cases "c = x")
    case True
    from handleNode_translatedNow [OF s1] Cons.prems True have now: "translatedNow c st s1" by simp
    then have "nodeStorage s1 c \<noteq> None" by (simp add: translatedNow_def)
    from forEach_handleNode_keeps_records [OF rest this] have "nodeStorage st' c \<noteq> None" .
    from translatedNow_later [OF now t2 this] show ?thesis .
  next
    case False
    with Cons.prems have "c \<in> set xs" by simp
    moreover from t1 have "nodeValue s1 = nodeValue st" by (simp add: touchesOnly_def)
    ultimately have "translatedNow c s1 st'"
      using Cons.IH [OF rest] Cons.prems by simp
    moreover from t1 False have "nodeStorage s1 c = nodeStorage st c" by (simp add: touchesOnly_def)
    ultimately show ?thesis using translatedNow_earlier [OF t1] by blast
  qed
qed

lemma handleNode_gate:
  assumes "handleNode d cfg st n = Inr st'"
  shows "itersectStorage st' = itersectStorage st \<and> itersectObserver st' = itersectObserver st"
  using assms
  by (auto simp: handleNode_def translateNode_def split: option.splits if_splits)

lemma forEach_handleNode_gate:
  "forEach (\<lambda>c s. handleNode d cfg s c) xs st = Inr st' \<Longrightarrow>
   itersectStorage st' = itersectStorage st \<and> itersectObserver st' = itersectObserver st"
proof (induction xs arbitrary: st)
  case Nil
  then show ?case by simp
next
  case (Cons x xs)
  from handleNode_total obtain s1 where s1: "handleNode d cfg st x = Inr s1" by blast
  with Cons.prems have "forEach (\<lambda>c s. handleNode d cfg s c) xs s1 = Inr st'" by simp
  from Cons.IH [OF this] handleNode_gate [OF s1] show ?case by simp
qed

lemma intersectNode_eq:
  "intersectNode d cfg st e = forEach (\<lambda>c s. handleNode d cfg s c) (visibleChildren d cfg e) st"
proof -
  have "intersectNode d cfg st e =
        forEach (\<lambda>x s. if \<not> (kind d x \<noteq> Element \<and> isTranslatableNode d cfg x) then Inr s
                        else handleNode d cfg s x) (childNodes d e) st"
    by (simp add: intersectNode_def)
  then show ?thesis
    unfolding visibleChildren_def by (simp only: forEach_filter)
qed

lemma example_translatable_5: "isTranslatableNode exampleDOM (exampleConfig lazy) 5"
  by (simp add: example_defs isTranslatableNode_def searchParent_def parentElement_def parentNode_def)

lemma example_deferred_5: "deferred exampleDOM (exampleConfig None) 5"
  by (simp add: example_defs deferred_def owningElement_def parentElement_def parentNode_def)

lemma example_not_deferred_8: "\<not> deferred exampleDOM (exampleConfig None) 8"
  by (simp add: example_defs deferred_def owningElement_def parentElement_def parentNode_def)

lemma example_visibleChildren: "visibleChildren exampleDOM (exampleConfig None) 1 = [5]"
  by (simp add: example_defs visibleChildren_def isTranslatableNode_def searchParent_def parentElement_def parentNode_def)

section \<open>Lazy mode\<close>

text \<open>
  \<^verbatim>\<open>addNode\<close> on a node that is no element, in terms of the test the code makes. It
  defers exactly under \<open>deferred\<close> (lazy mode, the root of the node another node, its
  owning element no \<^verbatim>\<open>OPTION\<close> and inside the body): the owning element is put into
  \<open>itersectStorage\<close> and given to the \<^verbatim>\<open>IntersectionObserver\<close>, unless it is registered
  already, and no record, text or call changes. Otherwise it is \<^verbatim>\<open>handleNode\<close> at once.
  An entry that is not intersecting, or whose target is not registered, does nothing;
  when a registered element is reported intersecting, its registration is dropped from
  both and \<^verbatim>\<open>handleNode\<close> runs on its direct children that are no elements and pass the
  filter, and on nothing else: each of them that has text gets a record, with a call if
  it had none.
\<close>

theorem lazy_deferral:
  assumes "kind d n \<noteq> Element"
  shows
   "(deferred d cfg n \<longrightarrow>
       (\<exists>e. owningElement d n = Some e \<and>
            addNode d cfg st n = Inr (handleElementByIntersectViewport st e) \<and>
            itersectStorage (handleElementByIntersectViewport st e)
              = insert e (itersectStorage st) \<and>
            (e \<notin> itersectStorage st \<longrightarrow>
               itersectObserver (handleElementByIntersectViewport st e)
                 = insert e (itersectObserver st)) \<and>
            (e \<in> itersectStorage st \<longrightarrow> handleElementByIntersectViewport st e = st) \<and>
            nodeStorage (handleElementByIntersectViewport st e) = nodeStorage st \<and>
            nodeValue (handleElementByIntersectViewport st e) = nodeValue st \<and>
            translateCalls (handleElementByIntersectViewport st e) = translateCalls st)) \<and>
    (\<not> deferred d cfg n \<longrightarrow> addNode d cfg st n = handleNode d cfg st n) \<and>
    (\<forall>e. itersectCallback d cfg st [(e, False)] = Inr st) \<and>
    (\<forall>e. e \<notin> itersectStorage st \<longrightarrow> itersectCallback d cfg st [(e, True)] = Inr st) \<and>
    (\<forall>e. e \<in> itersectStorage st \<longrightarrow>
       (\<exists>st'. itersectCallback d cfg st [(e, True)] = Inr st' \<and>
          forEach (\<lambda>c s. handleNode d cfg s c) (visibleChildren d cfg e)
            (st\<lparr> itersectStorage := itersectStorage st - {e},
                 itersectObserver := itersectObserver st - {e} \<rparr>) = Inr st' \<and>
          itersectStorage st' = itersectStorage st - {e} \<and>
          itersectObserver st' = itersectObserver st - {e} \<and>
          touchesOnly (set (visibleChildren d cfg e)) st st' \<and>
          (\<forall>c \<in> set (visibleChildren d cfg e).
             \<not> blank (nodeValue st c) \<longrightarrow> translatedNow c st st')))"
proof (intro conjI)
  show "deferred d cfg n \<longrightarrow>
       (\<exists>e. owningElement d n = Some e \<and>
            addNode d cfg st n = Inr (handleElementByIntersectViewport st e) \<and>
            itersectStorage (handleElementByIntersectViewport st e)
              = insert e (itersectStorage st) \<and>
            (e \<notin> itersectStorage st \<longrightarrow>
               itersectObserver (handleElementByIntersectViewport st e)
                 = insert e (itersectObserver st)) \<and>
            (e \<in> itersectStorage st \<longrightarrow> handleElementByIntersectViewport st e = st) \<and>
            nodeStorage (handleElementByIntersectViewport st e) = nodeStorage st \<and>
            nodeValue (handleElementByIntersectViewport st e) = nodeValue st \<and>
            translateCalls (handleElementByIntersectViewport st e) = translateCalls st)"
  proof
    assume def: "deferred d cfg n"
    then obtain e where e: "owningElement d n = Some e"
      by (auto simp: deferred_def split: option.splits)
    with def assms
    have "addNode d cfg st n = Inr (handleElementByIntersectViewport st e)"
      by (simp add: addNode_unit)
    with e show "\<exists>e. owningElement d n = Some e \<and>
            addNode d cfg st n = Inr (handleElementByIntersectViewport st e) \<and>
            itersectStorage (handleElementByIntersectViewport st e)
              = insert e (itersectStorage st) \<and>
            (e \<notin> itersectStorage st \<longrightarrow>
               itersectObserver (handleElementByIntersectViewport st e)
                 = insert e (itersectObserver st)) \<and>
            (e \<in> itersectStorage st \<longrightarrow> handleElementByIntersectViewport st e = st) \<and>
            nodeStorage (handleElementByIntersectViewport st e) = nodeStorage st \<and>
            nodeValue (handleElementByIntersectViewport st e) = nodeValue st \<and>
            translateCalls (handleElementByIntersectViewport st e) = translateCalls st"
      by (cases "e \<in> itersectStorage st")
         (simp_all add: handleElementByIntersectViewport_def insert_absorb)
  qed
next
  show "\<not> deferred d cfg n \<longrightarrow> addNode d cfg st n = handleNode d cfg st n"
    using assms by (simp add: addNode_unit)
next
  show "\<forall>e. itersectCallback d cfg st [(e, False)] = Inr st"
    by (simp add: itersectCallback_def)
next
  show "\<forall>e. e \<notin> itersectStorage st \<longrightarrow> itersectCallback d cfg st [(e, True)] = Inr st"
    by (simp add: itersectCallback_def)
next
  show "\<forall>e. e \<in> itersectStorage st \<longrightarrow>
       (\<exists>st'. itersectCallback d cfg st [(e, True)] = Inr st' \<and>
          forEach (\<lambda>c s. handleNode d cfg s c) (visibleChildren d cfg e)
            (st\<lparr> itersectStorage := itersectStorage st - {e},
                 itersectObserver := itersectObserver st - {e} \<rparr>) = Inr st' \<and>
          itersectStorage st' = itersectStorage st - {e} \<and>
          itersectObserver st' = itersectObserver st - {e} \<and>
          touchesOnly (set (visibleChildren d cfg e)) st st' \<and>
          (\<forall>c \<in> set (visibleChildren d cfg e).
             \<not> blank (nodeValue st c) \<longrightarrow> translatedNow c st st'))"
  proof (intro allI impI)
    fix e assume reg: "e \<in> itersectStorage st"
    let ?st0 = "st\<lparr> itersectStorage := itersectStorage st - {e},
                    itersectObserver := itersectObserver st - {e} \<rparr>"
    let ?xs = "visibleChildren d cfg e"
    have "\<exists>st'. forEach (\<lambda>c s. handleNode d cfg s c) ?xs ?st0 = Inr st'"
      by (rule forEach_total) (rule handleNode_total)
    then obtain st' where st': "forEach (\<lambda>c s. handleNode d cfg s c) ?xs ?st0 = Inr st'" ..
    from reg st' have cb: "itersectCallback d cfg st [(e, True)] = Inr st'"
      by (simp add: itersectCallback_def intersectNode_eq)
    from forEach_handleNode_gate [OF st']
    have g: "itersectStorage st' = itersectStorage st - {e}"
      "itersectObserver st' = itersectObserver st - {e}" by simp_all
    from forEach_handleNode_touches [OF st'] have t: "touchesOnly (set ?xs) st st'"
      by (simp add: touchesOnly_def)
    have tr: "\<forall>c \<in> set ?xs. \<not> blank (nodeValue st c) \<longrightarrow> translatedNow c st st'"
    proof (intro ballI impI)
      fix c assume c: "c \<in> set ?xs" "\<not> blank (nodeValue st c)"
      then have "isTranslatableNode d cfg c" by (simp add: visibleChildren_def)
      with forEach_handleNode_translates [OF st' c(1)] c(2)
      have "translatedNow c ?st0 st'" by simp
      then show "translatedNow c st st'" by (simp add: translatedNow_def)
    qed
    from cb st' g t tr
    show "\<exists>st'. itersectCallback d cfg st [(e, True)] = Inr st' \<and>
          forEach (\<lambda>c s. handleNode d cfg s c) ?xs ?st0 = Inr st' \<and>
          itersectStorage st' = itersectStorage st - {e} \<and>
          itersectObserver st' = itersectObserver st - {e} \<and>
          touchesOnly (set ?xs) st st' \<and>
          (\<forall>c \<in> set ?xs. \<not> blank (nodeValue st c) \<longrightarrow> translatedNow c st st')"
      by blast
  qed
qed

theorem lazy_deferral_witness:
  "kind exampleDOM 5 \<noteq> Element \<and> deferred exampleDOM (exampleConfig None) 5 \<and>
   addNode exampleDOM (exampleConfig None) (newNodesTranslator exampleContent) 5
     = Inr (handleElementByIntersectViewport (newNodesTranslator exampleContent) 1) \<and>
   kind exampleDOM 8 \<noteq> Element \<and> \<not> deferred exampleDOM (exampleConfig None) 8 \<and>
   addNode exampleDOM (exampleConfig None) (newNodesTranslator exampleContent) 8
     = handleNode exampleDOM (exampleConfig None) (newNodesTranslator exampleContent) 8 \<and>
   1 \<in> itersectStorage (handleElementByIntersectViewport (newNodesTranslator exampleContent) 1) \<and>
   (\<exists>st'. itersectCallback exampleDOM (exampleConfig None)
            (handleElementByIntersectViewport (newNodesTranslator exampleContent) 1) [(1, True)]
            = Inr st' \<and>
          translatedNow 5 (handleElementByIntersectViewport (newNodesTranslator exampleContent) 1) st')"
proof -
  let ?st = "newNodesTranslator exampleContent"
  let ?cfg = "exampleConfig None"
  let ?h = "handleElementByIntersectViewport ?st 1"
  have k5: "kind exampleDOM 5 \<noteq> Element" and k8: "kind exampleDOM 8 \<noteq> Element"
    by (simp_all add: exampleDOM_def)
  have o5: "owningElement exampleDOM 5 = Some 1"
    by (simp add: exampleDOM_def owningElement_def parentElement_def parentNode_def)
  have reg: "1 \<in> itersectStorage ?h"
    by (simp add: handleElementByIntersectViewport_def newNodesTranslator_def)
  have nb: "\<not> blank (nodeValue ?h 5)"
    by (simp add: handleElementByIntersectViewport_def newNodesTranslator_def exampleContent_def
        blank_def isWhiteSpace_def)
  note l5 = lazy_deferral [OF k5, of ?cfg ?st]
  note l8 = lazy_deferral [OF k8, of ?cfg ?st]
  note lh = lazy_deferral [OF k5, of ?cfg ?h]
  from l5 [THEN conjunct1, rule_format, OF example_deferred_5]
  obtain e where e: "owningElement exampleDOM 5 = Some e"
    and ae: "addNode exampleDOM ?cfg ?st 5 = Inr (handleElementByIntersectViewport ?st e)"
    by (elim exE conjE)
  from e o5 have "e = 1" by simp
  with ae have a5: "addNode exampleDOM ?cfg ?st 5 = Inr ?h" by simp
  from l8 [THEN conjunct2, THEN conjunct1, rule_format, OF example_not_deferred_8]
  have a8: "addNode exampleDOM ?cfg ?st 8 = handleNode exampleDOM ?cfg ?st 8" .
  from lh [THEN conjunct2, THEN conjunct2, THEN conjunct2, THEN conjunct2, rule_format, OF reg]
  obtain st' where cb: "itersectCallback exampleDOM ?cfg ?h [(1, True)] = Inr st'"
    and tr: "\<forall>c \<in> set (visibleChildren exampleDOM ?cfg 1).
           \<not> blank (nodeValue ?h c) \<longrightarrow> translatedNow c ?h st'"
    by (elim exE conjE)
  have "5 \<in> set (visibleChildren exampleDOM ?cfg 1)"
    by (subst example_visibleChildren) simp
  from bspec [OF tr this] nb have "translatedNow 5 ?h st'" by simp
  with cb have
    "\<exists>st'. itersectCallback exampleDOM ?cfg ?h [(1, True)] = Inr st' \<and> translatedNow 5 ?h st'"
    by (intro exI conjI)
  with k5 k8 example_deferred_5 example_not_deferred_8 a5 a8 reg show ?thesis
    by (intro conjI)
qed

text \<open>A node that is its own root is never deferred.\<close>

lemma attribute_root_not_deferred:
  "kind d n \<noteq> Element \<Longrightarrow> getRootNode d n = n \<Longrightarrow> addNode d cfg st n = handleNode d cfg st n"
  by (simp add: addNode_unit deferred_def)

text \<open>
  C4. In lazy mode, the attribute \<open>2\<close> of the \<^verbatim>\<open>div\<close> \<open>1\<close>. Its owner element is no
  \<^verbatim>\<open>OPTION\<close> and is inside the body, which is where the claim has \<^verbatim>\<open>addNode\<close> defer
  and register the owner with the viewport gate, and \<^verbatim>\<open>addNode\<close> does take
  \<^verbatim>\<open>ownerElement\<close> as the element to observe. But it tests \<^verbatim>\<open>getRootNode()\<close> against the
  node, an attribute has no parent and is its own root, and so the attribute goes to
  \<^verbatim>\<open>handleNode\<close> at once: a record is stored, \<^verbatim>\<open>translateCallback\<close> is called, and
  nothing is registered with the gate.
\<close>

theorem attribute_translated_at_once:
  "lazyTranslate (exampleConfig None) \<and> kind exampleDOM 2 = Attr \<and>
   ownerElement exampleDOM 2 = Some 1 \<and> isIntersectableNode exampleDOM 1 \<and>
   getRootNode exampleDOM 2 = 2 \<and>
   addNode exampleDOM (exampleConfig None) (newNodesTranslator exampleContent) 2 =
     Inr ((newNodesTranslator exampleContent)
            \<lparr> idCounter := 1,
              nodeStorage := [2 \<mapsto> \<lparr> id' = 0, updateId = 1, translateContext = 0,
                                      originalText = [], priority = 3 \<rparr>],
              translateCalls := [\<lparr> callNode = 2, callText = ''Hola'', callPriority = 3,
                                   nodeId = 0, nodeContext = 1 \<rparr>] \<rparr>) \<and>
   itersectStorage (newNodesTranslator exampleContent) = {} \<and>
   itersectObserver (newNodesTranslator exampleContent) = {}"
  by (simp add: addNode.simps)
     (simp add: example_defs isIntersectableNode_def handleNode_def translateNode_def
      isTranslatableNode_def searchParent_def getNodeScore_def isInViewport_def
      trim_def isWhiteSpace_def numeral_3_eq_3)

section \<open>Registration\<close>

text \<open>
  C6, as the code has it. \<^verbatim>\<open>addNode\<close> on a node that is no element changes no record, no
  text and no counter and makes no call when the node has a record already, or has no
  text or white space only, or fails the filter. Otherwise, unless lazy mode defers the
  node (\<open>deferred\<close>), it stores a new record with the identity \<open>idCounter\<close>, which no
  record of the store has, \<open>updateId = 1\<close>, \<open>translateContext = 0\<close> and the score of the
  node as priority, raises \<open>idCounter\<close> by one, and calls \<^verbatim>\<open>translateCallback\<close> with the
  text of the node.
\<close>

theorem addNode_registers_unless_deferred:
  assumes "kind d n \<noteq> Element"
  shows
   "(nodeStorage st n \<noteq> None \<or> blank (nodeValue st n) \<or> \<not> isTranslatableNode d cfg n \<longrightarrow>
       (\<exists>st'. addNode d cfg st n = Inr st' \<and> nodeStorage st' = nodeStorage st \<and>
          nodeValue st' = nodeValue st \<and> idCounter st' = idCounter st \<and>
          translateCalls st' = translateCalls st)) \<and>
    (nodeStorage st n = None \<and> \<not> blank (nodeValue st n) \<and> isTranslatableNode d cfg n \<and>
     \<not> deferred d cfg n \<longrightarrow>
       (\<exists>st' r v. addNode d cfg st n = Inr st' \<and> nodeValue st n = Some v \<and>
          nodeStorage st' = (nodeStorage st)(n \<mapsto> r) \<and>
          id' r = idCounter st \<and> updateId r = 1 \<and> translateContext r = 0 \<and>
          priority r = getNodeScore d n \<and> idCounter st' = idCounter st + 1 \<and>
          (idsBelowCounter st \<longrightarrow> (\<forall>m r0. nodeStorage st m = Some r0 \<longrightarrow> id' r0 \<noteq> id' r)) \<and>
          translateCalls st' = translateCalls st @
            [\<lparr> callNode = n, callText = v, callPriority = getNodeScore d n,
               nodeId = idCounter st, nodeContext = 1 \<rparr>]))"
proof (intro conjI impI)
  assume skip: "nodeStorage st n \<noteq> None \<or> blank (nodeValue st n) \<or> \<not> isTranslatableNode d cfg n"
  show "\<exists>st'. addNode d cfg st n = Inr st' \<and> nodeStorage st' = nodeStorage st \<and>
          nodeValue st' = nodeValue st \<and> idCounter st' = idCounter st \<and>
          translateCalls st' = translateCalls st"
  proof (cases "deferred d cfg n")
    case True
    with assms show ?thesis
      by (simp add: addNode_unit handleElementByIntersectViewport_def)
  next
    case False
    with assms skip show ?thesis by (simp add: addNode_unit handleNode_skip)
  qed
next
  assume a: "nodeStorage st n = None \<and> \<not> blank (nodeValue st n) \<and> isTranslatableNode d cfg n \<and>
     \<not> deferred d cfg n"
  then obtain v where v: "nodeValue st n = Some v" "\<not> blank (Some v)"
    by (cases "nodeValue st n") (auto simp: blank_def)
  let ?r = "\<lparr> id' = idCounter st, updateId = 1, translateContext = 0,
                   originalText = [], priority = getNodeScore d n \<rparr>"
  let ?st' = "st\<lparr> nodeStorage := (nodeStorage st)(n \<mapsto> ?r),
              idCounter := idCounter st + 1,
              translateCalls := translateCalls st @
                 [\<lparr> callNode = n, callText = v, callPriority = getNodeScore d n,
                    nodeId = idCounter st, nodeContext = 1 \<rparr>] \<rparr>"
  from a v assms have "addNode d cfg st n = Inr ?st'"
    by (simp add: addNode_unit handleNode_register)
  moreover have "idsBelowCounter st \<longrightarrow> (\<forall>m r0. nodeStorage st m = Some r0 \<longrightarrow> id' r0 \<noteq> id' ?r)"
    by (fastforce simp: idsBelowCounter_def)
  ultimately show "\<exists>st' r v. addNode d cfg st n = Inr st' \<and> nodeValue st n = Some v \<and>
          nodeStorage st' = (nodeStorage st)(n \<mapsto> r) \<and>
          id' r = idCounter st \<and> updateId r = 1 \<and> translateContext r = 0 \<and>
          priority r = getNodeScore d n \<and> idCounter st' = idCounter st + 1 \<and>
          (idsBelowCounter st \<longrightarrow> (\<forall>m r0. nodeStorage st m = Some r0 \<longrightarrow> id' r0 \<noteq> id' r)) \<and>
          translateCalls st' = translateCalls st @
            [\<lparr> callNode = n, callText = v, callPriority = getNodeScore d n,
               nodeId = idCounter st, nodeContext = 1 \<rparr>]"
    using v(1)
    by (intro exI [of _ ?st'] exI [of _ ?r] exI [of _ v]) simp
qed

theorem addNode_registers_unless_deferred_witness:
  "kind exampleDOM 5 \<noteq> Element \<and>
   nodeStorage examplePending 5 \<noteq> None \<and>
   (\<exists>st'. addNode exampleDOM (exampleConfig None) examplePending 5 = Inr st' \<and>
      nodeStorage st' = nodeStorage examplePending \<and>
      translateCalls st' = translateCalls examplePending) \<and>
   nodeStorage (newNodesTranslator exampleContent) 5 = None \<and>
   \<not> blank (nodeValue (newNodesTranslator exampleContent) 5) \<and>
   isTranslatableNode exampleDOM (exampleConfig (Some False)) 5 \<and>
   \<not> deferred exampleDOM (exampleConfig (Some False)) 5 \<and>
   (\<exists>st'. addNode exampleDOM (exampleConfig (Some False)) (newNodesTranslator exampleContent) 5
            = Inr st' \<and>
      map_option id' (nodeStorage st' 5) = Some 0 \<and>
      map_option updateId (nodeStorage st' 5) = Some 1 \<and>
      map_option translateContext (nodeStorage st' 5) = Some 0 \<and>
      idCounter st' = 1 \<and> translateCalls st' = [exampleCall])"
proof -
  let ?st = "newNodesTranslator exampleContent"
  have k5: "kind exampleDOM 5 \<noteq> Element" by (simp add: exampleDOM_def)
  have tracked: "nodeStorage examplePending 5 \<noteq> None" by (simp add: example_defs)
  have h: "nodeStorage ?st 5 = None" "\<not> blank (nodeValue ?st 5)"
    "\<not> deferred exampleDOM (exampleConfig (Some False)) 5"
    by (simp_all add: example_defs blank_def isWhiteSpace_def deferred_def)
  from addNode_registers_unless_deferred [OF k5, of examplePending "exampleConfig None"] tracked
  have p1: "\<exists>st'. addNode exampleDOM (exampleConfig None) examplePending 5 = Inr st' \<and>
      nodeStorage st' = nodeStorage examplePending \<and>
      translateCalls st' = translateCalls examplePending"
    by blast
  from addNode_registers_unless_deferred [OF k5, of ?st "exampleConfig (Some False)"] h example_translatable_5
  obtain st' r v where st':
    "addNode exampleDOM (exampleConfig (Some False)) ?st 5 = Inr st'" "nodeValue ?st 5 = Some v"
    "nodeStorage st' = (nodeStorage ?st)(5 \<mapsto> r)" "id' r = idCounter ?st" "updateId r = 1"
    "translateContext r = 0" "idCounter st' = idCounter ?st + 1"
    "translateCalls st' = translateCalls ?st @
            [\<lparr> callNode = 5, callText = v, callPriority = getNodeScore exampleDOM 5,
               nodeId = idCounter ?st, nodeContext = 1 \<rparr>]"
    by blast
  have score: "getNodeScore exampleDOM 5 = 4"
    by (simp add: exampleDOM_def getNodeScore_def parentElement_def parentNode_def isInViewport_def)
  from st'(2) have v: "v = ''Hello''" by (simp add: example_defs)
  from st' score v have
    "map_option id' (nodeStorage st' 5) = Some 0" "map_option updateId (nodeStorage st' 5) = Some 1"
    "map_option translateContext (nodeStorage st' 5) = Some 0" "idCounter st' = 1"
    "translateCalls st' = [exampleCall]"
    by (simp_all add: newNodesTranslator_def exampleCall_def)
  with st'(1) have p2:
    "\<exists>st'. addNode exampleDOM (exampleConfig (Some False)) ?st 5 = Inr st' \<and>
      map_option id' (nodeStorage st' 5) = Some 0 \<and>
      map_option updateId (nodeStorage st' 5) = Some 1 \<and>
      map_option translateContext (nodeStorage st' 5) = Some 0 \<and>
      idCounter st' = 1 \<and> translateCalls st' = [exampleCall]"
    by blast
  from k5 tracked p1 h example_translatable_5 p2 show ?thesis by blast
qed

text \<open>
  C6 as stated fails in lazy mode, which is the default: the text \<open>5\<close> has no record, has
  text and passes the filter, and \<^verbatim>\<open>addNode\<close> registers its parent \<open>1\<close> with the viewport
  gate, stores no record and makes no call.
\<close>

theorem addNode_lazy_registers_nothing:
  "kind exampleDOM 5 \<noteq> Element \<and>
   nodeStorage (newNodesTranslator exampleContent) 5 = None \<and>
   nodeValue (newNodesTranslator exampleContent) 5 = Some ''Hello'' \<and>
   trim ''Hello'' = ''Hello'' \<and>
   isTranslatableNode exampleDOM (exampleConfig None) 5 \<and>
   addNode exampleDOM (exampleConfig None) (newNodesTranslator exampleContent) 5
     = Inr (handleElementByIntersectViewport (newNodesTranslator exampleContent) 1) \<and>
   nodeStorage (handleElementByIntersectViewport (newNodesTranslator exampleContent) 1) 5 = None \<and>
   translateCalls (handleElementByIntersectViewport (newNodesTranslator exampleContent) 1) = []"
  by (simp add: example_translatable_5 addNode.simps)
     (simp add: example_defs parentElement_def parentNode_def isIntersectableNode_def
      handleElementByIntersectViewport_def trim_def isWhiteSpace_def)

section \<open>The original text\<close>

lemma getNodeData_stored:
  "getNodeData st n = map_option originalText (nodeStorage st n)"
  by (simp add: getNodeData_def split: option.splits)

text \<open>
  C3. \<^verbatim>\<open>handleNode\<close> stores the empty string as \<open>originalText\<close>, and only the commit
  of a translation stores the text of the node. For the text \<open>5\<close>, registered and its
  translation in flight: the node reads \<^verbatim>\<open>Hello\<close>, \<^verbatim>\<open>getNodeData\<close> gives the empty
  string, and \<^verbatim>\<open>deleteNode\<close> writes the empty string to the node.
\<close>

theorem originalText_empty_before_commit:
  "handleNode exampleDOM (exampleConfig (Some False)) (newNodesTranslator exampleContent) 5
     = Inr examplePending \<and>
   nodeValue examplePending 5 = Some ''Hello'' \<and>
   getNodeData examplePending 5 = Some [] \<and>
   nodeValue (deleteNode exampleDOM examplePending 5 False) 5 = Some []"
  by (simp add: example_defs handleNode_def translateNode_def isTranslatableNode_def
      searchParent_def parentElement_def parentNode_def getNodeScore_def isInViewport_def
      trim_def isWhiteSpace_def getNodeData_def deleteNode.simps setNodeValue_def)

section \<open>Walking a tree\<close>

lemma handleTree_fold:
  "handleTree d cb w s = fold cb (visited d w) s"
  "handleTree_nodes d cb ns s = fold cb (visitedNodes d ns) s"
  "handleShadow d cb ws s = fold cb (visitedShadow d ws) s"
  by (induction d cb w s and d cb ns s and d cb ws s rule: handleTree_handleTree_nodes_handleShadow.induct)
     (simp_all split: option.splits)

lemma handleTree_nodes_loop:
  "handleTree_nodes d callback ns s =
     nodeExplore_loop
       (\<lambda>(n, shadowRoot) s.
          (let s1 = callback n s in
           if kind d n = Element then
             fold callback (attributes d n)
               (case shadowRoot of
                  None \<Rightarrow> s1
                | Some children \<Rightarrow> handleShadow d callback children s1)
           else s1, False))
       ns s"
  by (induction ns arbitrary: s) (simp_all add: Let_def split: prod.splits)

lemma handleTree_nodeExplore:
  "handleTree d callback w s =
     nodeExplore w True
       (\<lambda>(n, shadowRoot) s.
          (let s1 = callback n s in
           if kind d n = Element then
             fold callback (attributes d n)
               (case shadowRoot of
                  None \<Rightarrow> s1
                | Some children \<Rightarrow> handleShadow d callback children s1)
           else s1, False))
       s"
  by (cases w) (simp add: nodeExplore_def handleTree_nodes_loop)

lemma handleShadow_fold:
  "handleShadow d callback children s = fold (handleTree d callback) children s"
  by (induction children arbitrary: s) simp_all

lemma deleteNode_target:
  "deleteNode d st n True =
     (let st1 = (if kind d n = Element
                 then st\<lparr> itersectStorage := itersectStorage st - {n},
                          itersectObserver := itersectObserver st - {n} \<rparr>
                 else st)
      in case nodeStorage st1 n of
           None \<Rightarrow> st1
         | Some nodeData \<Rightarrow>
             (setNodeValue st1 n (originalText nodeData))
               \<lparr>nodeStorage := (nodeStorage (setNodeValue st1 n (originalText nodeData)))(n := None)\<rparr>)"
  by (subst deleteNode.simps) (simp add: Let_def split: option.splits)

lemma deleteNode_target_fields:
  "nodeStorage (deleteNode d st n True) = (nodeStorage st)(n := None)"
  "nodeValue (deleteNode d st n True) = (nodeValue st)(n := restoredValue st n)"
  "idCounter (deleteNode d st n True) = idCounter st"
  "translateCalls (deleteNode d st n True) = translateCalls st"
  "observedNodesStorage (deleteNode d st n True) = observedNodesStorage st"
  "observers (deleteNode d st n True) = observers st"
  "itersectStorage (deleteNode d st n True) =
     (if kind d n = Element then itersectStorage st - {n} else itersectStorage st)"
  "itersectObserver (deleteNode d st n True) =
     (if kind d n = Element then itersectObserver st - {n} else itersectObserver st)"
  by (auto simp: deleteNode_target Let_def setNodeValue_def restoredValue_def
      split: option.splits)

lemma restoredValue_deleteNode:
  "restoredValue (deleteNode d st x True) u = restoredValue st u"
proof (cases "u = x")
  case True
  have "restoredValue (deleteNode d st x True) x = nodeValue (deleteNode d st x True) x"
    unfolding restoredValue_def by (simp add: deleteNode_target_fields(1))
  also have "\<dots> = restoredValue st x" by (simp add: deleteNode_target_fields(2))
  finally show ?thesis using True by simp
next
  case False
  then show ?thesis
    by (simp add: restoredValue_def deleteNode_target_fields(1,2) cong: option.case_cong)
qed

lemma deleteNode_all:
  "deleteNode d st n False =
     fold (\<lambda>x s. deleteNode d s x True)
       ((if kind d n = Element then visited d (createTreeWalker d n) else []) @ [n]) st"
  by (subst deleteNode.simps)
     (simp add: Let_def handleTree_fold deleteNode_target split: option.splits)

lemma fold_delete_fields:
  "nodeStorage (fold (\<lambda>x s. deleteNode d s x True) xs st) u
     = (if u \<in> set xs then None else nodeStorage st u)"
  "nodeValue (fold (\<lambda>x s. deleteNode d s x True) xs st) u
     = (if u \<in> set xs then restoredValue st u else nodeValue st u)"
  "idCounter (fold (\<lambda>x s. deleteNode d s x True) xs st) = idCounter st"
  "translateCalls (fold (\<lambda>x s. deleteNode d s x True) xs st) = translateCalls st"
  "observedNodesStorage (fold (\<lambda>x s. deleteNode d s x True) xs st) = observedNodesStorage st"
  "observers (fold (\<lambda>x s. deleteNode d s x True) xs st) = observers st"
  "itersectStorage (fold (\<lambda>x s. deleteNode d s x True) xs st)
     = itersectStorage st - {x \<in> set xs. kind d x = Element}"
  "itersectObserver (fold (\<lambda>x s. deleteNode d s x True) xs st)
     = itersectObserver st - {x \<in> set xs. kind d x = Element}"
proof (induction xs arbitrary: st)
  case Nil
  {
    case 1 show ?case by simp
  next
    case 2 show ?case by simp
  next
    case 3 show ?case by simp
  next
    case 4 show ?case by simp
  next
    case 5 show ?case by simp
  next
    case 6 show ?case by simp
  next
    case 7 show ?case by simp
  next
    case 8 show ?case by simp
  }
next
  case (Cons x xs)
  {
    case 1 show ?case by (simp add: Cons.IH deleteNode_target_fields)
  next
    case 2 show ?case
      by (simp add: Cons.IH deleteNode_target_fields restoredValue_deleteNode)
  next
    case 3 show ?case by (simp add: Cons.IH deleteNode_target_fields)
  next
    case 4 show ?case by (simp add: Cons.IH deleteNode_target_fields)
  next
    case 5 show ?case by (simp add: Cons.IH deleteNode_target_fields)
  next
    case 6 show ?case by (simp add: Cons.IH deleteNode_target_fields)
  next
    case 7 show ?case by (auto simp: Cons.IH deleteNode_target_fields)
  next
    case 8 show ?case by (auto simp: Cons.IH deleteNode_target_fields)
  }
qed

lemma extends_refl: "extends st st"
  by (simp add: extends_def)

lemma extends_trans: "extends st st1 \<Longrightarrow> extends st1 st2 \<Longrightarrow> extends st st2"
  unfolding extends_def by (elim conjE, intro conjI allI impI) (force, force, simp_all)


lemma idsBelowCounterD:
  assumes "idsBelowCounter st" and "nodeStorage st m = Some r"
  shows "id' r < idCounter st"
proof -
  from assms(1) have "\<forall>n r. nodeStorage st n = Some r \<longrightarrow> id' r < idCounter st"
    unfolding idsBelowCounter_def .
  then show ?thesis using assms(2) by (elim allE [of _ m] allE [of _ r]) simp
qed

lemma handleNode_extends:
  assumes "handleNode d cfg st n = Inr st'" shows "extends st st'"
proof (cases "nodeStorage st n \<noteq> None \<or> blank (nodeValue st n) \<or> \<not> isTranslatableNode d cfg n")
  case True
  with assms show ?thesis by (simp add: handleNode_skip extends_refl)
next
  case False
  then obtain v where "nodeStorage st n = None" "nodeValue st n = Some v" "\<not> blank (Some v)"
    "isTranslatableNode d cfg n" by (cases "nodeValue st n") (auto simp: blank_def)
  from handleNode_register [OF this] assms show ?thesis
    by (auto simp: extends_def)
qed

lemma addNode_unit_extends:
  assumes "kind d n \<noteq> Element"
  shows "\<exists>st'. addNode d cfg st n = Inr st' \<and> extends st st'"
proof (cases "deferred d cfg n")
  case True
  with assms show ?thesis
    by (simp add: addNode_unit handleElementByIntersectViewport_def extends_def)
next
  case False
  from handleNode_total obtain st' where "handleNode d cfg st n = Inr st'" by blast
  with False assms handleNode_extends show ?thesis by (auto simp: addNode_unit)
qed

lemma fold_addNode_extends:
  "\<exists>st'. fold (\<lambda>x r. if kind d x = Element then r
                       else if isTranslatableNode d cfg x
                         then (case r of Inl e \<Rightarrow> Inl e | Inr s \<Rightarrow> addNode d cfg s x)
                       else r) xs (Inr st) = Inr st' \<and> extends st st'"
proof (induction xs arbitrary: st)
  case Nil
  then show ?case by (simp add: extends_refl)
next
  case (Cons x xs)
  show ?case
  proof (cases "kind d x \<noteq> Element \<and> isTranslatableNode d cfg x")
    case True
    with addNode_unit_extends obtain s1 where s1: "addNode d cfg st x = Inr s1" "extends st s1"
      by blast
    from Cons.IH [of s1] obtain st' where
      "fold (\<lambda>x r. if kind d x = Element then r
                       else if isTranslatableNode d cfg x
                         then (case r of Inl e \<Rightarrow> Inl e | Inr s \<Rightarrow> addNode d cfg s x)
                       else r) xs (Inr s1) = Inr st'" "extends s1 st'" by blast
    with s1 True show ?thesis by (auto intro: extends_trans)
  next
    case False
    with Cons.IH [of st] show ?thesis by auto
  qed
qed

lemma addNode_extends: "\<exists>st'. addNode d cfg st n = Inr st' \<and> extends st st'"
proof (cases "kind d n = Element")
  case True
  then have "addNode d cfg st n =
    fold (\<lambda>x r. if kind d x = Element then r
                       else if isTranslatableNode d cfg x
                         then (case r of Inl e \<Rightarrow> Inl e | Inr s \<Rightarrow> addNode d cfg s x)
                       else r) (visited d (createTreeWalker d n)) (Inr st)"
    by (subst addNode.simps) (simp add: handleTree_fold)
  with fold_addNode_extends show ?thesis by simp
next
  case False
  then show ?thesis by (rule addNode_unit_extends)
qed

section \<open>Identities\<close>

text \<open>
  Every identity in the store is below the counter and no two records share one: this
  is so in a new translator and stays so through every operation.
\<close>

lemma idsBelowCounter_new: "idsBelowCounter (newNodesTranslator content)"
  by (simp add: idsBelowCounter_def newNodesTranslator_def)

lemma idsBelowCounterI:
  "(\<And>n r. nodeStorage st n = Some r \<Longrightarrow> id' r < idCounter st) \<Longrightarrow> idsBelowCounter st"
  unfolding idsBelowCounter_def by (intro allI impI)






lemma updateNode_ids:
  assumes "updateNode st n = Inr st'" and "idsBelowCounter st"
  shows "idsBelowCounter st'"
proof (rule idsBelowCounterI)
  fix m r assume r: "nodeStorage st' m = Some r"
  from assms(1) r have "idCounter st' = idCounter st \<and>
      (\<exists>r0. nodeStorage st m = Some r0 \<and> id' r0 = id' r)"
    by (auto simp: updateNode_def translateNode_def split: option.splits if_splits)
  then obtain r0 where c: "idCounter st' = idCounter st" and r0: "nodeStorage st m = Some r0"
    and eq: "id' r0 = id' r" by blast
  from idsBelowCounterD [OF assms(2) r0] c eq show "id' r < idCounter st'" by simp
qed

lemma thenCallback_ids:
  assumes "idsBelowCounter st"
  shows "idsBelowCounter (fst (thenCallback st c text))"
proof (rule idsBelowCounterI)
  fix m r assume r: "nodeStorage (fst (thenCallback st c text)) m = Some r"
  then have "idCounter (fst (thenCallback st c text)) = idCounter st \<and>
      (\<exists>r0. nodeStorage st m = Some r0 \<and> id' r0 = id' r)"
    by (auto simp: thenCallback_def commitRecord_def setNodeValue_def
        split: option.splits if_splits)
  then obtain r0 where c: "idCounter (fst (thenCallback st c text)) = idCounter st"
    and r0: "nodeStorage st m = Some r0" and eq: "id' r0 = id' r" by blast
  from idsBelowCounterD [OF assms r0] c eq
  show "id' r < idCounter (fst (thenCallback st c text))" by simp
qed










lemma identitiesDistinct_new: "identitiesDistinct (newNodesTranslator content)"
  by (simp add: identitiesDistinct_def newNodesTranslator_def)













section \<open>Removal\<close>


lemma example_visited:
  "visited exampleDOM (createTreeWalker exampleDOM 1) = [1, 2, 3, 4, 5, 10, 6, 7, 8]"
  by (simp add: exampleDOM_def exampleWalk_def)





section \<open>Observation\<close>

text \<open>
  \<^verbatim>\<open>observe\<close> throws on a node that is observed; otherwise it stores a new, connected
  observer for the node and is \<^verbatim>\<open>addNode\<close> on it, which does not throw. \<^verbatim>\<open>unobserve\<close>
  throws on a node that is not observed; otherwise it is \<^verbatim>\<open>deleteNode\<close> on the node,
  with the observer disconnected and removed from the storage.
\<close>

theorem observe_unobserve:
  "(observedNodesStorage st e \<noteq> None \<longrightarrow>
      observe d cfg st e = Inl (Error ''Node already under observe'')) \<and>
   (observedNodesStorage st e = None \<longrightarrow>
      (\<exists>st'. observe d cfg st e = Inr st' \<and>
         addNode d cfg
           (st\<lparr> observedNodesStorage := (observedNodesStorage st)(e \<mapsto> length (observers st)),
                observers := observers st @ [True] \<rparr>) e = Inr st' \<and>
         observedNodesStorage st' = (observedNodesStorage st)(e \<mapsto> length (observers st)) \<and>
         observers st' = observers st @ [True])) \<and>
   (observedNodesStorage st e = None \<longrightarrow>
      unobserve d st e = Inl (Error ''Node is not under observe'')) \<and>
   (\<forall>observer. observedNodesStorage st e = Some observer \<longrightarrow>
      (\<exists>st'. unobserve d st e = Inr st' \<and>
         nodeStorage st' = nodeStorage (deleteNode d st e False) \<and>
         nodeValue st' = nodeValue (deleteNode d st e False) \<and>
         itersectStorage st' = itersectStorage (deleteNode d st e False) \<and>
         observedNodesStorage st' = (observedNodesStorage st)(e := None) \<and>
         observers st' = (observers st)[observer := False]))"
proof (intro conjI impI allI)
  assume "observedNodesStorage st e \<noteq> None"
  then show "observe d cfg st e = Inl (Error ''Node already under observe'')"
    by (simp add: observe_def)
next
  assume none: "observedNodesStorage st e = None"
  let ?st0 = "st\<lparr> observedNodesStorage := (observedNodesStorage st)(e \<mapsto> length (observers st)),
                observers := observers st @ [True] \<rparr>"
  from addNode_extends obtain st' where st': "addNode d cfg ?st0 e = Inr st'" "extends ?st0 st'"
    by blast
  from st'(2) have "observedNodesStorage st' = observedNodesStorage ?st0" "observers st' = observers ?st0"
    by (simp_all add: extends_def)
  with st'(1) none
  show "\<exists>st'. observe d cfg st e = Inr st' \<and> addNode d cfg ?st0 e = Inr st' \<and>
         observedNodesStorage st' = (observedNodesStorage st)(e \<mapsto> length (observers st)) \<and>
         observers st' = observers st @ [True]"
    by (simp add: observe_def)
next
  assume "observedNodesStorage st e = None"
  then show "unobserve d st e = Inl (Error ''Node is not under observe'')"
    by (simp add: unobserve_def)
next
  fix observer assume some: "observedNodesStorage st e = Some observer"
  have keep: "observedNodesStorage (deleteNode d st e False) = observedNodesStorage st"
    "observers (deleteNode d st e False) = observers st"
    unfolding deleteNode_all by (simp_all only: fold_delete_fields)
  with some
  show "\<exists>st'. unobserve d st e = Inr st' \<and>
         nodeStorage st' = nodeStorage (deleteNode d st e False) \<and>
         nodeValue st' = nodeValue (deleteNode d st e False) \<and>
         itersectStorage st' = itersectStorage (deleteNode d st e False) \<and>
         observedNodesStorage st' = (observedNodesStorage st)(e := None) \<and>
         observers st' = (observers st)[observer := False]"
    by (simp add: unobserve_def Let_def)
qed

theorem observe_unobserve_witness:
  "observedNodesStorage (newNodesTranslator exampleContent) 1 = None \<and>
   unobserve exampleDOM (newNodesTranslator exampleContent) 1
     = Inl (Error ''Node is not under observe'') \<and>
   (\<exists>st'. observe exampleDOM (exampleConfig None) (newNodesTranslator exampleContent) 1 = Inr st' \<and>
      observedNodesStorage st' 1 = Some 0 \<and> observers st' = [True] \<and>
      observe exampleDOM (exampleConfig None) st' 1 = Inl (Error ''Node already under observe'') \<and>
      (\<exists>st''. unobserve exampleDOM st' 1 = Inr st'' \<and>
         observedNodesStorage st'' 1 = None \<and> observers st'' = [False]))"
proof -
  let ?st = "newNodesTranslator exampleContent"
  let ?cfg = "exampleConfig None"
  have none: "observedNodesStorage ?st 1 = None" and obs: "observers ?st = []"
    by (simp_all add: newNodesTranslator_def)
  from observe_unobserve [of ?st 1 exampleDOM ?cfg] none
  have un: "unobserve exampleDOM ?st 1 = Inl (Error ''Node is not under observe'')"
    by blast
  from observe_unobserve [of ?st 1 exampleDOM ?cfg] none
  obtain st' where st': "observe exampleDOM ?cfg ?st 1 = Inr st'"
    "observedNodesStorage st' = (observedNodesStorage ?st)(1 \<mapsto> length (observers ?st))"
    "observers st' = observers ?st @ [True]"
    by blast
  from st'(2,3) obs have o: "observedNodesStorage st' 1 = Some 0" "observers st' = [True]"
    by simp_all
  from observe_unobserve [of st' 1 exampleDOM ?cfg] o(1)
  have twice: "observe exampleDOM ?cfg st' 1 = Inl (Error ''Node already under observe'')"
    by simp
  from observe_unobserve [of st' 1 exampleDOM ?cfg] o(1)
  obtain st'' where st'': "unobserve exampleDOM st' 1 = Inr st''"
    "observedNodesStorage st'' = (observedNodesStorage st')(1 := None)"
    "observers st'' = (observers st')[0 := False]"
    by blast
  from st''(2,3) o(2) have "observedNodesStorage st'' 1 = None" "observers st'' = [False]"
    by simp_all
  with st''(1) have "\<exists>st''. unobserve exampleDOM st' 1 = Inr st'' \<and>
         observedNodesStorage st'' 1 = None \<and> observers st'' = [False]" by blast
  with st'(1) o twice have "\<exists>st'. observe exampleDOM ?cfg ?st 1 = Inr st' \<and>
      observedNodesStorage st' 1 = Some 0 \<and> observers st' = [True] \<and>
      observe exampleDOM ?cfg st' 1 = Inl (Error ''Node already under observe'') \<and>
      (\<exists>st''. unobserve exampleDOM st' 1 = Inr st'' \<and>
         observedNodesStorage st'' 1 = None \<and> observers st'' = [False])" by blast
  with none un show ?thesis by blast
qed

lemma example_observe:
  "observe exampleDOM (exampleConfig None) (newNodesTranslator exampleContent) 1
     = Inr exampleObserved"
  by (simp add: observe_def example_defs exampleWalk_def exampleObserved_def
      addNode.simps handleNode_def translateNode_def isTranslatableNode_def searchParent_def
      parentElement_def parentNode_def getNodeScore_def isInViewport_def trim_def
      isWhiteSpace_def isIntersectableNode_def handleElementByIntersectViewport_def
      numeral_3_eq_3 eval_nat_numeral)

text \<open>
  C9. \<^verbatim>\<open>observe\<close> of the \<^verbatim>\<open>div\<close> \<open>1\<close> in lazy mode starts the watch and walks the tree:
  the attribute \<open>2\<close> and the shadow text \<open>8\<close> are registered and their translations
  asked for. \<^verbatim>\<open>unobserve\<close> before these arrive stops and discards the watch and removes
  the records, but the text it writes back is the stored \<open>originalText\<close>, which is
  still the empty string: \<^verbatim>\<open>Hola\<close> and \<^verbatim>\<open>Mundo\<close> are gone, where the claim has the
  content restored.
\<close>

theorem unobserve_blanks_pending_units:
  "observe exampleDOM (exampleConfig None) (newNodesTranslator exampleContent) 1
     = Inr exampleObserved \<and>
   nodeValue exampleObserved 2 = Some ''Hola'' \<and> nodeValue exampleObserved 8 = Some ''Mundo'' \<and>
   (\<exists>st2. unobserve exampleDOM exampleObserved 1 = Inr st2 \<and>
      nodeValue st2 2 = Some [] \<and> nodeValue st2 8 = Some [] \<and>
      nodeStorage st2 2 = None \<and> nodeStorage st2 8 = None \<and>
      observedNodesStorage st2 1 = None \<and> observers st2 = [False])"
proof -
  let ?del = "deleteNode exampleDOM exampleObserved 1 False"
  have v: "nodeValue exampleObserved 2 = Some ''Hola''" "nodeValue exampleObserved 8 = Some ''Mundo''"
    by (simp_all add: exampleObserved_def newNodesTranslator_def exampleContent_def)
  have us: "(if kind exampleDOM 1 = Element
             then visited exampleDOM (createTreeWalker exampleDOM 1) else []) @ [1]
            = [1, 2, 3, 4, 5, 10, 6, 7, 8, 1]"
    unfolding example_visited by (simp add: exampleDOM_def)
  have r: "restoredValue exampleObserved 2 = Some []" "restoredValue exampleObserved 8 = Some []"
    by (simp_all add: restoredValue_def exampleObserved_def newNodesTranslator_def
        exampleContent_def)
  have d: "nodeValue ?del 2 = Some []" "nodeValue ?del 8 = Some []"
    "nodeStorage ?del 2 = None" "nodeStorage ?del 8 = None"
    "observedNodesStorage ?del = observedNodesStorage exampleObserved"
    "observers ?del = observers exampleObserved"
    unfolding deleteNode_all us fold_delete_fields using r by simp_all
  have o: "observedNodesStorage exampleObserved 1 = Some 0" "observers exampleObserved = [True]"
    by (simp_all add: exampleObserved_def)
  have "\<exists>st2. unobserve exampleDOM exampleObserved 1 = Inr st2 \<and>
      nodeValue st2 2 = Some [] \<and> nodeValue st2 8 = Some [] \<and>
      nodeStorage st2 2 = None \<and> nodeStorage st2 8 = None \<and>
      observedNodesStorage st2 1 = None \<and> observers st2 = [False]"
    using d o by (simp add: unobserve_def Let_def)
  with example_observe v show ?thesis by simp
qed

section \<open>The session token\<close>

lemma issueCalls_tokens:
  "translateContext' (issueCalls cl calls p) = translateContext' p"
  "symbols (issueCalls cl calls p) = symbols p"
  "pageTranslator (issueCalls cl calls p) = pageTranslator p"
  "originalTextPopup (issueCalls cl calls p) = originalTextPopup p"
  "translateState (issueCalls cl calls p) = translateState p"
  unfolding issueCalls_def
  by (induction calls arbitrary: p)
     (simp_all add: translateText_call_def translateStateUpdate_def)

lemma run_tokens:
  assumes "run d content from' to p = Inr p'"
  shows "translateContext' p' = symbols p \<and> symbols p' = symbols p + 1"
  using assms
  by (auto simp: run_def Let_def issueCalls_tokens split: if_splits sum.splits)

lemma stop_tokens:
  assumes "stop d p = Inr (p', content)"
  shows "translateContext' p' = symbols p \<and> symbols p' = symbols p + 1"
  using assms
  by (auto simp: stop_def Let_def translateStateUpdate_def split: option.splits sum.splits)

lemma step_tokens:
  assumes "tokensMinted p"
  shows "tokensMinted (step s p) \<and> translateContext' p \<le> translateContext' (step s p)"
proof (cases s)
  case (Run d content f t)
  show ?thesis
  proof (cases "run d content f t p")
    case (Inl e) with Run assms show ?thesis by simp
  next
    case (Inr p')
    from run_tokens [OF Inr] Run Inr assms show ?thesis by (simp add: tokensMinted_def)
  qed
next
  case (Stop d)
  show ?thesis
  proof (cases "stop d p")
    case (Inl e) with Stop assms show ?thesis by simp
  next
    case (Inr r)
    obtain p' content where r: "r = (p', content)" by (cases r)
    from stop_tokens [of d p p' content] Inr r Stop assms show ?thesis
      by (simp add: tokensMinted_def)
  qed
next
  case (UpdateConfig popup)
  with assms show ?thesis by (simp add: updateConfig_def tokensMinted_def)
next
  case (TranslatorEvent d ev)
  with assms show ?thesis
    by (auto simp: translatorEvent_def tokensMinted_def issueCalls_tokens
        split: option.splits sum.splits)
next
  case (Call cl)
  with assms show ?thesis
    by (auto simp: translateText_call_def translateStateUpdate_def tokensMinted_def
        split: sum.splits)
next
  case (Then cl)
  with assms show ?thesis by (simp add: translateText_then_def tokensMinted_def)
next
  case (Catch cl)
  with assms show ?thesis by (simp add: translateText_catch_def tokensMinted_def)
next
  case (Finally cl)
  with assms show ?thesis
    by (simp add: translateText_finally_def translateStateUpdate_def tokensMinted_def)
qed

lemma steps_tokens:
  "tokensMinted p \<Longrightarrow>
   tokensMinted (fold step ss p) \<and> translateContext' p \<le> translateContext' (fold step ss p)"
proof (induction ss arbitrary: p)
  case Nil
  then show ?case by simp
next
  case (Cons s ss)
  from step_tokens [OF Cons.prems, of s]
  have a: "tokensMinted (step s p)" "translateContext' p \<le> translateContext' (step s p)"
    by simp_all
  from Cons.IH [OF a(1)] a(2) show ?case by simp
qed

lemma tokensMinted_new: "tokensMinted (newPageTranslator popup nodesConfig)"
  by (simp add: tokensMinted_def newPageTranslator_def)

lemma run_result:
  assumes "pageTranslator p = None"
  shows "\<exists>p' cl nt. run d content from' to p = Inr p' \<and> pageTranslator p' = Some (cl, nt) \<and>
           observedNodesStorage nt (documentElement d) \<noteq> None"
proof -
  let ?nt0 = "(newNodesTranslator content)
      \<lparr> observedNodesStorage :=
          (observedNodesStorage (newNodesTranslator content))
            (documentElement d \<mapsto> length (observers (newNodesTranslator content))),
        observers := observers (newNodesTranslator content) @ [True] \<rparr>"
  let ?cfg = "innerConfig (Some (nodesTranslatorConfig p))"
  from addNode_extends obtain nt where
    nt: "addNode d ?cfg ?nt0 (documentElement d) = Inr nt" "extends ?nt0 nt" by blast
  have "observe d ?cfg (newNodesTranslator content) (documentElement d) = Inr nt"
    using nt(1) by (simp add: observe_def newNodesTranslator_def)
  moreover from nt(2) have "observedNodesStorage nt (documentElement d) \<noteq> None"
    by (simp add: extends_def)
  ultimately show ?thesis
    using assms by (auto simp: run_def Let_def issueCalls_tokens)
qed

lemma stop_result:
  assumes "pageTranslator p = Some (cl, nt)"
    and "observedNodesStorage nt (documentElement d) \<noteq> None"
  shows "\<exists>p1 left. stop d p = Inr (p1, left) \<and> pageTranslator p1 = None \<and>
           getStatus p1 = \<lparr> resolved = 0, rejected = 0, pending = 0 \<rparr>"
  using assms
  by (auto simp: stop_def unobserve_def Let_def translateStateUpdate_def getStatus_def)

text \<open>
  C10. The function \<^verbatim>\<open>translateText\<close> that \<^verbatim>\<open>run\<close> gives to the translator has captured
  the token that \<^verbatim>\<open>run\<close> made, and the translator keeps this function through its
  events. Once \<^verbatim>\<open>stop\<close> has returned, whatever happens afterwards (further runs and
  stops, events, parts of other calls), the parts of a call that captured the token of
  the stopped session change nothing at all: the call is rejected as outdated, and
  the functions given to \<^verbatim>\<open>then\<close>, \<^verbatim>\<open>catch\<close> and \<^verbatim>\<open>finally\<close> return the object as it
  is, counters included.
\<close>

theorem stale_session_callbacks_change_nothing:
  "(\<forall>p'. run d content from' to p = Inr p' \<longrightarrow>
      (\<exists>cl nt. pageTranslator p' = Some (cl, nt) \<and> localContext cl = translateContext' p' \<and>
         localTranslateState cl = translateState p')) \<and>
   (\<forall>cl nt. pageTranslator (translatorEvent d ev p) = Some (cl, nt) \<longrightarrow>
      (\<exists>nt0. pageTranslator p = Some (cl, nt0))) \<and>
   (\<forall>cl p1 left. tokensMinted p \<and> localContext cl = translateContext' p \<and>
      stop d p = Inr (p1, left) \<longrightarrow>
      (\<forall>ss. translateText_call (fold step ss p1) cl = Inl (Error ''Outdated context'') \<and>
            translateText_then (fold step ss p1) cl = fold step ss p1 \<and>
            translateText_catch (fold step ss p1) cl = fold step ss p1 \<and>
            translateText_finally (fold step ss p1) cl = fold step ss p1))"
proof (intro conjI)
  show "\<forall>p'. run d content from' to p = Inr p' \<longrightarrow>
      (\<exists>cl nt. pageTranslator p' = Some (cl, nt) \<and> localContext cl = translateContext' p' \<and>
         localTranslateState cl = translateState p')"
    by (auto simp: run_def Let_def issueCalls_tokens split: if_splits sum.splits)
next
  show "\<forall>cl nt. pageTranslator (translatorEvent d ev p) = Some (cl, nt) \<longrightarrow>
      (\<exists>nt0. pageTranslator p = Some (cl, nt0))"
    by (auto simp: translatorEvent_def split: option.splits sum.splits)
next
  show "\<forall>cl p1 left. tokensMinted p \<and> localContext cl = translateContext' p \<and>
      stop d p = Inr (p1, left) \<longrightarrow>
      (\<forall>ss. translateText_call (fold step ss p1) cl = Inl (Error ''Outdated context'') \<and>
            translateText_then (fold step ss p1) cl = fold step ss p1 \<and>
            translateText_catch (fold step ss p1) cl = fold step ss p1 \<and>
            translateText_finally (fold step ss p1) cl = fold step ss p1)"
  proof (intro allI impI)
    fix cl :: closure and p1 left ss
    assume a: "tokensMinted p \<and> localContext cl = translateContext' p \<and> stop d p = Inr (p1, left)"
    then have st: "stop d p = Inr (p1, left)" and inv: "tokensMinted p"
      and tok: "localContext cl = translateContext' p" by simp_all
    from stop_tokens [OF st] inv
    have p1: "tokensMinted p1" "translateContext' p < translateContext' p1"
      by (simp_all add: tokensMinted_def)
    from steps_tokens [OF p1(1), of ss] p1(2) tok
    have ne: "localContext cl \<noteq> translateContext' (fold step ss p1)" by simp
    then show "translateText_call (fold step ss p1) cl = Inl (Error ''Outdated context'') \<and>
            translateText_then (fold step ss p1) cl = fold step ss p1 \<and>
            translateText_catch (fold step ss p1) cl = fold step ss p1 \<and>
            translateText_finally (fold step ss p1) cl = fold step ss p1"
      by (simp add: translateText_call_def translateText_then_def translateText_catch_def
          translateText_finally_def)
  qed
qed

theorem stale_session_callbacks_change_nothing_witness:
  "\<exists>p cl nt p1 left.
     run exampleDOM exampleContent ''es'' ''en''
       (newPageTranslator None \<lparr> ignoredTags' = None, translatableAttributes' = None,
                                  lazyTranslate' = None \<rparr>) = Inr p \<and>
     pageTranslator p = Some (cl, nt) \<and>
     tokensMinted p \<and> localContext cl = translateContext' p \<and>
     stop exampleDOM p = Inr (p1, left) \<and>
     translateText_then (fold step [Run exampleDOM left ''es'' ''fr'', Call cl] p1) cl
       = fold step [Run exampleDOM left ''es'' ''fr'', Call cl] p1 \<and>
     translateText_finally (fold step [Run exampleDOM left ''es'' ''fr'', Call cl] p1) cl
       = fold step [Run exampleDOM left ''es'' ''fr'', Call cl] p1"
proof -
  let ?p0 = "newPageTranslator None \<lparr> ignoredTags' = None, translatableAttributes' = None,
                                  lazyTranslate' = None \<rparr>"
  have "pageTranslator ?p0 = None" by (simp add: newPageTranslator_def)
  from run_result [OF this, of exampleDOM exampleContent "''es''" "''en''"]
  obtain p cl0 nt0 where p: "run exampleDOM exampleContent ''es'' ''en'' ?p0 = Inr p"
    "pageTranslator p = Some (cl0, nt0)"
    "observedNodesStorage nt0 (documentElement exampleDOM) \<noteq> None"
    by blast
  from stale_session_callbacks_change_nothing [where d = exampleDOM and content = exampleContent and from' = "''es''"
      and to = "''en''" and p = ?p0] p(1) obtain cl nt where cl: "pageTranslator p = Some (cl, nt)"
    "localContext cl = translateContext' p"
    by blast
  from cl(1) p(2) have same: "cl0 = cl" "nt0 = nt" by simp_all
  from run_tokens [OF p(1)] have inv: "tokensMinted p" by (simp add: tokensMinted_def)
  from stop_result [OF p(2) p(3)] obtain p1 left where
    st: "stop exampleDOM p = Inr (p1, left)" by blast
  let ?ss = "[Run exampleDOM left ''es'' ''fr'', Call cl]"
  from stale_session_callbacks_change_nothing [where d = exampleDOM and p = p] inv cl(2) st
  have "\<forall>ss. translateText_call (fold step ss p1) cl = Inl (Error ''Outdated context'') \<and>
            translateText_then (fold step ss p1) cl = fold step ss p1 \<and>
            translateText_catch (fold step ss p1) cl = fold step ss p1 \<and>
            translateText_finally (fold step ss p1) cl = fold step ss p1"
    by blast
  then have "translateText_then (fold step ?ss p1) cl = fold step ?ss p1"
    "translateText_finally (fold step ?ss p1) cl = fold step ?ss p1"
    by blast+
  with p(1) cl inv st show ?thesis by blast
qed

end
